theory Spec2Isabelle
  imports Complex_Main
begin

section \<open>Numbers, strings and arrays of the host language\<close>

text \<open>
  The program is TypeScript. Its numbers are modelled as \<^typ>\<open>real\<close> (loop counters as
  \<^typ>\<open>int\<close>), its strings as \<^typ>\<open>string\<close>, its arrays as lists. An array read outside
  the array gives \<open>undefined\<close>, which is \<open>None\<close> here. \<open>Math.random()\<close> is a stream
  \<open>rnd :: nat \<Rightarrow> real\<close> together with the number of draws made so far. The calls into
  the 3D, animation and canvas libraries are modelled by what the libraries document for
  them; what a frame or a drawing reads from its surroundings is a parameter.
\<close>

fun digitsOf :: "nat \<Rightarrow> string" where
  "digitsOf n =
     (if n < 10 then [''0123456789'' ! n]
      else digitsOf (n div 10) @ [''0123456789'' ! (n mod 10)])"

declare digitsOf.simps [simp del]

definition numToString :: "int \<Rightarrow> string" where
  "numToString n = (if n < 0 then CHR ''-'' # digitsOf (nat (- n)) else digitsOf (nat n))"

definition jsIndex :: "'a list \<Rightarrow> int \<Rightarrow> 'a option" where
  "jsIndex xs i = (if 0 \<le> i \<and> i < int (length xs) then Some (xs ! nat i) else None)"

section \<open>config/cubeTheme.ts and config/cubeIcons.ts\<close>

definition cubeColors :: "string list" where
  "cubeColors = [''#00f5d4'', ''#f72585'', ''#7b2cbf'', ''#1a1a24'', ''#adb5bd'', ''#f8f9fa'']"

definition gap :: real where
  "gap = 1.05"

type_synonym IconType = string

datatype CubeFace = Front | Back | Top | Right | Left

fun CENTER_FACE_ICONS :: "CubeFace \<Rightarrow> IconType" where
  "CENTER_FACE_ICONS Front = ''neural-network''"
| "CENTER_FACE_ICONS Back = ''code-brackets''"
| "CENTER_FACE_ICONS Top = ''brain''"
| "CENTER_FACE_ICONS Right = ''data-flow''"
| "CENTER_FACE_ICONS Left = ''circuit''"

section \<open>types/cube.ts\<close>

record CubeData =
  id' :: string
  localPosition :: "real \<times> real \<times> real"
  color :: "string option"
  iconType :: "IconType option"
  layer :: string

record CubeGridState =
  top' :: "CubeData list"
  mid' :: "CubeData list"
  bot' :: "CubeData list"

section \<open>The grid builder (\<open>slices\<close> of \<open>RubiksCube\<close>)\<close>

text \<open>The template literal \<open>`${x}-${y}-${z}`\<close>.\<close>

definition cubeId :: "int \<Rightarrow> int \<Rightarrow> int \<Rightarrow> string" where
  "cubeId x y z = numToString x @ ''-'' @ numToString y @ ''-'' @ numToString z"

text \<open>
  The state of the three nested loops: the arrays \<open>top\<close>, \<open>mid\<close>, \<open>bot\<close> and the number
  of \<open>Math.random()\<close> calls made so far.
\<close>

record GridLoop =
  topAcc :: "CubeData list"
  midAcc :: "CubeData list"
  botAcc :: "CubeData list"
  draws :: nat

definition gridBody :: "(nat \<Rightarrow> real) \<Rightarrow> int \<Rightarrow> int \<Rightarrow> int \<Rightarrow> GridLoop \<Rightarrow> GridLoop" where
  "gridBody rnd x y z st =
     (let colorIndex = \<lfloor>rnd (draws st) * real (length cubeColors)\<rfloor>;
          icon =
            (if z = 1 \<and> x = 0 \<and> y = 0 then Some (CENTER_FACE_ICONS Front)
             else if z = - 1 \<and> x = 0 \<and> y = 0 then Some (CENTER_FACE_ICONS Back)
             else if y = 1 \<and> x = 0 \<and> z = 0 then Some (CENTER_FACE_ICONS Top)
             else if x = 1 \<and> y = 0 \<and> z = 0 then Some (CENTER_FACE_ICONS Right)
             else if x = - 1 \<and> y = 0 \<and> z = 0 then Some (CENTER_FACE_ICONS Left)
             else None);
          cubeData =
            \<lparr> id' = cubeId x y z,
              localPosition = (real_of_int x * gap, 0, real_of_int z * gap),
              color = jsIndex cubeColors colorIndex,
              iconType = icon,
              layer = (if y = 1 then ''top'' else if y = 0 then ''mid'' else ''bot'') \<rparr>;
          st1 = st\<lparr>draws := Suc (draws st)\<rparr>
      in if y = 1 then st1\<lparr>topAcc := topAcc st1 @ [cubeData]\<rparr>
         else if y = 0 then st1\<lparr>midAcc := midAcc st1 @ [cubeData]\<rparr>
         else st1\<lparr>botAcc := botAcc st1 @ [cubeData]\<rparr>)"

definition gridLoops :: "(nat \<Rightarrow> real) \<Rightarrow> GridLoop" where
  "gridLoops rnd =
     foldl (\<lambda>sx x. foldl (\<lambda>sy y. foldl (\<lambda>sz z. gridBody rnd x y z sz) sy [- 1 .. 1]) sx [- 1 .. 1])
       \<lparr>topAcc = [], midAcc = [], botAcc = [], draws = 0\<rparr> [- 1 .. 1]"

definition slices :: "(nat \<Rightarrow> real) \<Rightarrow> CubeGridState" where
  "slices rnd =
     (let st = gridLoops rnd in \<lparr>top' = topAcc st, mid' = midAcc st, bot' = botAcc st\<rparr>)"

text \<open>The pieces in the order in which they are rendered and collected in \<open>cubesRefs\<close>.\<close>

definition allCubes :: "CubeGridState \<Rightarrow> CubeData list" where
  "allCubes g = top' g @ mid' g @ bot' g"

section \<open>Vectors (three.js \<open>Vector3\<close>)\<close>

text \<open>
  A \<open>Vector3\<close> with its fields \<open>x\<close>, \<open>y\<close>, \<open>z\<close> (named \<open>x3\<close>, \<open>y3\<close>, \<open>z3\<close> here) and
  the methods the program calls, each as the library documents it: \<open>normalize\<close> divides
  by \<open>length() || 1\<close>, \<open>divideScalar(s)\<close> multiplies by \<open>1 / s\<close>, \<open>lerp(v, alpha)\<close> moves each
  field by \<open>alpha\<close> times its difference to \<open>v\<close>. A method that mutates its receiver
  returns the new value here.
\<close>

record Vector3 =
  x3 :: real
  y3 :: real
  z3 :: real

definition lengthV :: "Vector3 \<Rightarrow> real" where
  "lengthV v = sqrt (x3 v * x3 v + y3 v * y3 v + z3 v * z3 v)"

definition multiplyScalar :: "Vector3 \<Rightarrow> real \<Rightarrow> Vector3" where
  "multiplyScalar v s = \<lparr>x3 = x3 v * s, y3 = y3 v * s, z3 = z3 v * s\<rparr>"

definition divideScalar :: "Vector3 \<Rightarrow> real \<Rightarrow> Vector3" where
  "divideScalar v s = multiplyScalar v (1 / s)"

definition normalizeV :: "Vector3 \<Rightarrow> Vector3" where
  "normalizeV v = divideScalar v (if lengthV v = 0 then 1 else lengthV v)"

definition addV :: "Vector3 \<Rightarrow> Vector3 \<Rightarrow> Vector3" where
  "addV v w = \<lparr>x3 = x3 v + x3 w, y3 = y3 v + y3 w, z3 = z3 v + z3 w\<rparr>"

definition subV :: "Vector3 \<Rightarrow> Vector3 \<Rightarrow> Vector3" where
  "subV v w = \<lparr>x3 = x3 v - x3 w, y3 = y3 v - y3 w, z3 = z3 v - z3 w\<rparr>"

definition distanceTo :: "Vector3 \<Rightarrow> Vector3 \<Rightarrow> real" where
  "distanceTo v w =
     (let dx = x3 v - x3 w; dy = y3 v - y3 w; dz = z3 v - z3 w
      in sqrt (dx * dx + dy * dy + dz * dz))"

definition lerp :: "Vector3 \<Rightarrow> Vector3 \<Rightarrow> real \<Rightarrow> Vector3" where
  "lerp v w alpha =
     \<lparr>x3 = x3 v + (x3 w - x3 v) * alpha,
      y3 = y3 v + (y3 w - y3 v) * alpha,
      z3 = z3 v + (z3 w - z3 v) * alpha\<rparr>"

section \<open>The physics state and its activation (\<open>tl3\<close>)\<close>

record PhysicsState =
  active :: bool
  velocities :: "Vector3 list"
  offsets :: "Vector3 list"

text \<open>The value of \<open>useRef<PhysicsState>\<close> and the effect that fills its arrays.\<close>

definition physicsRef :: PhysicsState where
  "physicsRef = \<lparr>active = False, velocities = [], offsets = []\<rparr>"

definition totalCubes :: nat where
  "totalCubes = 27"

definition initPhysics :: "PhysicsState \<Rightarrow> PhysicsState" where
  "initPhysics p =
     foldl (\<lambda>q i. q\<lparr>velocities := velocities q @ [\<lparr>x3 = 0, y3 = 0, z3 = 0\<rparr>],
                     offsets := offsets q @ [\<lparr>x3 = 0, y3 = 0, z3 = 0\<rparr>]\<rparr>)
       p [0 ..< totalCubes]"

text \<open>
  The two callbacks of the scroll trigger of \<open>tl3\<close>. The trigger calls \<open>onLeave\<close> when the
  scroll position passes its end going forward and \<open>onEnterBack\<close> when it passes its end
  going backward; for the other events of a trigger (entering, leaving backward, a
  progress update of the scrub) \<open>tl3\<close> declares no callback.
\<close>

definition onLeave :: "PhysicsState \<Rightarrow> PhysicsState" where
  "onLeave p = p\<lparr>active := True\<rparr>"

definition onEnterBack :: "PhysicsState \<Rightarrow> PhysicsState" where
  "onEnterBack p =
     (p\<lparr>active := False\<rparr>)\<lparr>velocities := map (\<lambda>v. \<lparr>x3 = 0, y3 = 0, z3 = 0\<rparr>) (velocities p)\<rparr>"

datatype TriggerEvent = Enter | Leave | EnterBack | LeaveBack | Update real

fun tl3Trigger :: "TriggerEvent \<Rightarrow> PhysicsState \<Rightarrow> PhysicsState" where
  "tl3Trigger Leave p = onLeave p"
| "tl3Trigger EnterBack p = onEnterBack p"
| "tl3Trigger Enter p = p"
| "tl3Trigger LeaveBack p = p"
| "tl3Trigger (Update progress) p = p"

section \<open>The physics loop (\<open>useFrame\<close> of \<open>RubiksCube\<close>)\<close>

text \<open>The constants of \<open>CUBE_THEME.physics\<close>.\<close>

definition PHYSICS_FLOOR_Y :: real where
  "PHYSICS_FLOOR_Y = - 5.0"

definition repulsionRadius :: real where
  "repulsionRadius = 4.0"

definition repulsionForce :: real where
  "repulsionForce = 45.0"

definition drag :: real where
  "drag = 0.96"

definition collisionMinDist :: real where
  "collisionMinDist = 1.1"

definition collisionForce :: real where
  "collisionForce = 15.0"

text \<open>
  What one frame reads from outside the component: the pointer as the loop has projected
  it through the camera onto the floor (\<open>mouseWorldPos\<close>), the time since the last frame,
  the clock, the viewport width, and for every piece the world transform of its parent
  groups, so that \<open>worldOf fr i p\<close> is what \<open>getWorldPosition\<close> gives for piece \<open>i\<close> when its
  local position is \<open>p\<close>.
\<close>

record Frame =
  mouseWorldPos :: Vector3
  delta :: real
  elapsedTime :: real
  viewportWidth :: real
  worldOf :: "nat \<Rightarrow> Vector3 \<Rightarrow> Vector3"

text \<open>
  What the loop reads and writes: \<open>mesh.position\<close> of every entry of \<open>cubesRefs\<close>, the
  physics state, the index of the dragged piece (\<open>null\<close> is \<open>None\<close>) and the number of
  \<open>Math.random()\<close> calls made so far. \<open>addToRefs\<close> collects mounted groups only, so the
  guards \<open>if (!mesh) return\<close> of the loops never fire and have no branch here. A position
  is local to the slice of the piece; the loop compares it with world positions as it is.
\<close>

record Scene =
  cubes :: "Vector3 list"
  physics :: PhysicsState
  dragRef :: "nat option"
  randomCalls :: nat

text \<open>Calling a method on \<open>undefined\<close> throws; the exception leaves the loop.\<close>

datatype JsError = TypeError | IndexSizeError

fun forEachM :: "(nat \<Rightarrow> 's \<Rightarrow> JsError + 's) \<Rightarrow> nat list \<Rightarrow> 's \<Rightarrow> JsError + 's" where
  "forEachM f [] s = Inr s"
| "forEachM f (i # is) s = (case f i s of Inl e \<Rightarrow> Inl e | Inr s' \<Rightarrow> forEachM f is s')"

text \<open>Drag logic: the inner loop that pushes the other pieces away, then the branch.\<close>

definition pushOther :: "Frame \<Rightarrow> nat \<Rightarrow> nat \<Rightarrow> Scene \<Rightarrow> JsError + Scene" where
  "pushOther fr i j sc =
     (if i = j then Inr sc
      else
        let otherPos = worldOf fr j (cubes sc ! j);
            dist = distanceTo (cubes sc ! i) otherPos;
            minDist = 1.3
        in if dist < minDist then
             (let pushDir = normalizeV (subV otherPos (cubes sc ! i));
                  force = (minDist - dist) * 30.0
              in case jsIndex (velocities (physics sc)) (int j) of
                   None \<Rightarrow> Inl TypeError
                 | Some vj \<Rightarrow>
                     Inr (sc\<lparr>physics := (physics sc)\<lparr>velocities :=
                       (velocities (physics sc))[j := addV vj (multiplyScalar pushDir (force * delta fr))]\<rparr>\<rparr>))
           else Inr sc)"

definition dragTarget :: "Frame \<Rightarrow> Vector3" where
  "dragTarget fr =
     (let mouseFloorPos = \<lparr>x3 = x3 (mouseWorldPos fr), y3 = PHYSICS_FLOOR_Y, z3 = z3 (mouseWorldPos fr)\<rparr>
      in mouseFloorPos\<lparr>y3 := PHYSICS_FLOOR_Y + 0.5\<rparr>)"

definition dragLogic :: "Frame \<Rightarrow> nat \<Rightarrow> Scene \<Rightarrow> JsError + Scene" where
  "dragLogic fr i sc =
     (let targetPos = dragTarget fr;
          moveDiff = subV targetPos (cubes sc ! i)
      in case jsIndex (velocities (physics sc)) (int i) of
           None \<Rightarrow> Inl TypeError
         | Some velocity \<Rightarrow>
             (let sc1 = sc\<lparr>physics := (physics sc)\<lparr>velocities :=
                          (velocities (physics sc))[i := multiplyScalar moveDiff 10]\<rparr>\<rparr>;
                  sc2 = sc1\<lparr>cubes := (cubes sc1)[i := lerp (cubes sc1 ! i) targetPos 0.2]\<rparr>
              in forEachM (pushOther fr i) [0 ..< length (cubes sc2)] sc2))"

text \<open>Mouse repulsion, only while nothing is dragged.\<close>

definition mouseRepulsion :: "Frame \<Rightarrow> nat option \<Rightarrow> Vector3 \<Rightarrow> Vector3 \<Rightarrow> Vector3" where
  "mouseRepulsion fr dragged currentWorldPos velocity =
     (let meshFloorPos = \<lparr>x3 = x3 currentWorldPos, y3 = PHYSICS_FLOOR_Y, z3 = z3 currentWorldPos\<rparr>;
          mouseFloorPos = \<lparr>x3 = x3 (mouseWorldPos fr), y3 = PHYSICS_FLOOR_Y, z3 = z3 (mouseWorldPos fr)\<rparr>
      in if dragged = None then
           (let distToMouse = distanceTo meshFloorPos mouseFloorPos
            in if distToMouse < repulsionRadius then
                 (let forceDir = normalizeV (subV meshFloorPos mouseFloorPos);
                      force = (1 - distToMouse / repulsionRadius) * repulsionForce
                  in addV velocity (multiplyScalar forceDir (force * delta fr)))
               else velocity)
         else velocity)"

text \<open>
  Cube-to-cube collision: the inner loop over the other pieces. It changes the velocity of
  piece \<open>i\<close> only and draws two random numbers for every piece that is too close.
\<close>

definition collideWith ::
  "Frame \<Rightarrow> (nat \<Rightarrow> real) \<Rightarrow> Scene \<Rightarrow> nat \<Rightarrow> Vector3 \<Rightarrow> nat \<Rightarrow> Vector3 \<times> nat \<Rightarrow> Vector3 \<times> nat" where
  "collideWith fr rnd sc i currentWorldPos j acc =
     (if i = j then acc
      else
        let otherPos = worldOf fr j (cubes sc ! j);
            dist = distanceTo currentWorldPos otherPos
        in if dist < collisionMinDist then
             (let pushDir0 = normalizeV (subV currentWorldPos otherPos);
                  pushDir1 = pushDir0\<lparr>x3 := x3 pushDir0 + (rnd (snd acc) - 0.5) * 0.1\<rparr>;
                  pushDir = pushDir1\<lparr>z3 := z3 pushDir1 + (rnd (snd acc + 1) - 0.5) * 0.1\<rparr>;
                  force = (collisionMinDist - dist) * collisionForce
              in (addV (fst acc) (multiplyScalar pushDir (force * delta fr)), snd acc + 2))
           else acc)"

definition cubeCollision ::
  "Frame \<Rightarrow> (nat \<Rightarrow> real) \<Rightarrow> Scene \<Rightarrow> nat \<Rightarrow> Vector3 \<Rightarrow> Vector3 \<Rightarrow> Vector3 \<times> nat" where
  "cubeCollision fr rnd sc i currentWorldPos velocity =
     foldl (\<lambda>acc j. collideWith fr rnd sc i currentWorldPos j acc)
       (velocity, randomCalls sc) [0 ..< length (cubes sc)]"

text \<open>Wall collision, on the position and the velocity of the piece.\<close>

definition safeBoundary :: "real \<Rightarrow> real" where
  "safeBoundary worldWidth = max 2 (worldWidth - 1)"

definition wallCollision :: "real \<Rightarrow> Vector3 \<times> Vector3 \<Rightarrow> Vector3 \<times> Vector3" where
  "wallCollision worldWidth pv =
     (if x3 (fst pv) > safeBoundary worldWidth then
        (fst pv\<lparr>x3 := safeBoundary worldWidth\<rparr>, snd pv\<lparr>x3 := x3 (snd pv) * (- 0.8)\<rparr>)
      else if x3 (fst pv) < - safeBoundary worldWidth then
        (fst pv\<lparr>x3 := - safeBoundary worldWidth\<rparr>, snd pv\<lparr>x3 := x3 (snd pv) * (- 0.8)\<rparr>)
      else pv)"

text \<open>The velocity of piece \<open>i\<close> when its wall check runs: after repulsion and collisions.\<close>

definition preWallVelocity :: "Frame \<Rightarrow> (nat \<Rightarrow> real) \<Rightarrow> nat \<Rightarrow> Scene \<Rightarrow> Vector3 \<Rightarrow> Vector3 \<times> nat" where
  "preWallVelocity fr rnd i sc velocity =
     (let currentWorldPos = worldOf fr i (cubes sc ! i)
      in cubeCollision fr rnd sc i currentWorldPos
           (mouseRepulsion fr (dragRef sc) currentWorldPos velocity))"

text \<open>
  The body of the loop for a piece that is not dragged. Each statement that changes the
  piece reads its velocity, so with no velocity at index \<open>i\<close> the body throws before it
  has changed the piece.
\<close>

definition freeMotion :: "Frame \<Rightarrow> (nat \<Rightarrow> real) \<Rightarrow> nat \<Rightarrow> Scene \<Rightarrow> JsError + Scene" where
  "freeMotion fr rnd i sc =
     (case jsIndex (velocities (physics sc)) (int i) of
        None \<Rightarrow> Inl TypeError
      | Some velocity \<Rightarrow>
          (let worldWidth = viewportWidth fr / 2;
               collided = preWallVelocity fr rnd i sc velocity;
               walled = wallCollision worldWidth (cubes sc ! i, fst collided);
               p1 = (fst walled)\<lparr>x3 := x3 (fst walled) + x3 (snd walled) * delta fr\<rparr>;
               p2 = p1\<lparr>z3 := z3 p1 + z3 (snd walled) * delta fr\<rparr>;
               p3 = p2\<lparr>y3 := y3 p2 + sin (elapsedTime fr * 3 + real i) * 0.003\<rparr>;
               v3 = multiplyScalar (snd walled) drag
           in Inr (sc\<lparr>cubes := (cubes sc)[i := p3],
                      physics := (physics sc)\<lparr>velocities := (velocities (physics sc))[i := v3]\<rparr>,
                      randomCalls := snd collided\<rparr>)))"

definition physicsStep :: "Frame \<Rightarrow> (nat \<Rightarrow> real) \<Rightarrow> nat \<Rightarrow> Scene \<Rightarrow> JsError + Scene" where
  "physicsStep fr rnd i sc =
     (if dragRef sc = Some i then dragLogic fr i sc else freeMotion fr rnd i sc)"

definition physicsLoop :: "Frame \<Rightarrow> (nat \<Rightarrow> real) \<Rightarrow> Scene \<Rightarrow> JsError + Scene" where
  "physicsLoop fr rnd sc =
     (if \<not> active (physics sc) then Inr sc
      else forEachM (physicsStep fr rnd) [0 ..< length (cubes sc)] sc)"

section \<open>The explosion (\<open>tl2\<close>)\<close>

text \<open>
  A mounted piece: \<open>mesh.position\<close> and \<open>mesh.userData.id\<close>. The render pass mounts the
  pieces of the top, the middle and the bottom slice in this order, each at the
  \<open>localPosition\<close> of its descriptor, and collects them in \<open>cubesRefs\<close>.
\<close>

record Mesh =
  position :: Vector3
  userDataId :: string

definition mountCube :: "CubeData \<Rightarrow> Mesh" where
  "mountCube c =
     \<lparr>position = (case localPosition c of (px, py, pz) \<Rightarrow> \<lparr>x3 = px, y3 = py, z3 = pz\<rparr>),
      userDataId = id' c\<rparr>"

definition cubesRefs :: "CubeGridState \<Rightarrow> Mesh list" where
  "cubesRefs g = map mountCube (allCubes g)"

definition parentYOf :: "CubeGridState \<Rightarrow> string \<Rightarrow> real" where
  "parentYOf g i =
     (case find (\<lambda>c. id' c = i) (top' g) of
        Some c \<Rightarrow> 1.05
      | None \<Rightarrow> (case find (\<lambda>c. id' c = i) (bot' g) of Some c \<Rightarrow> - 1.05 | None \<Rightarrow> 0))"

definition explodeDirection :: "Vector3 \<Rightarrow> real \<Rightarrow> Vector3" where
  "explodeDirection p parentY =
     (let direction = normalizeV \<lparr>x3 = x3 p, y3 = parentY, z3 = z3 p\<rparr>
      in if lengthV direction = 0 then \<lparr>x3 = 0, y3 = 1, z3 = 0\<rparr> else direction)"

definition safeSpread :: "real \<Rightarrow> real" where
  "safeSpread screenWidth = min 3.0 (screenWidth * 0.25)"

definition explodeTarget :: "Vector3 \<Rightarrow> real \<Rightarrow> real \<Rightarrow> Vector3" where
  "explodeTarget p parentY explodeDist =
     (let direction = explodeDirection p parentY
      in \<lparr>x3 = x3 p + x3 direction * (explodeDist * 0.7),
          y3 = y3 p + y3 direction * explodeDist - parentY,
          z3 = z3 p + z3 direction * explodeDist\<rparr>)"

text \<open>
  The two tweens the loop adds for one piece: the end values for \<open>mesh.position\<close> and for
  \<open>mesh.rotation\<close>. The piece draws four random numbers, the first for its distance.
\<close>

record ExplodeTween =
  positionTo :: Vector3
  rotationTo :: Vector3

definition explodeCube :: "CubeGridState \<Rightarrow> real \<Rightarrow> (nat \<Rightarrow> real) \<Rightarrow> nat \<Rightarrow> Mesh \<Rightarrow> ExplodeTween" where
  "explodeCube g screenWidth rnd n mesh =
     (let parentY = parentYOf g (userDataId mesh);
          explodeDist = safeSpread screenWidth + rnd n * 2
      in \<lparr>positionTo = explodeTarget (position mesh) parentY explodeDist,
          rotationTo = \<lparr>x3 = rnd (n + 1) * pi * 2, y3 = rnd (n + 2) * pi * 2, z3 = rnd (n + 3) * pi * 2\<rparr>\<rparr>)"

fun explodeEach :: "CubeGridState \<Rightarrow> real \<Rightarrow> (nat \<Rightarrow> real) \<Rightarrow> nat \<Rightarrow> Mesh list \<Rightarrow> ExplodeTween list" where
  "explodeEach g screenWidth rnd n [] = []"
| "explodeEach g screenWidth rnd n (mesh # meshes) =
     explodeCube g screenWidth rnd n mesh # explodeEach g screenWidth rnd (n + 4) meshes"

text \<open>
  A \<open>to\<close> tween of the animation library, as the library documents it: at time \<open>t\<close> of its
  timeline a tween placed at 0 with duration \<open>d\<close> has moved its property from the start
  value to the end value by the ease of \<open>t / d\<close>, clamped to 0 and 1. The ease \<open>power2.out\<close>
  is \<open>1 - (1 - r)\<^sup>3\<close>; a tween with no duration lasts 0.5. The timeline \<open>tl2\<close> lasts as long
  as its longest tween, and its time is its progress times its duration.
\<close>

definition power2Out :: "real \<Rightarrow> real" where
  "power2Out r = 1 - (1 - r) ^ 3"

definition tweenTo :: "(real \<Rightarrow> real) \<Rightarrow> real \<Rightarrow> real \<Rightarrow> real \<Rightarrow> real \<Rightarrow> real" where
  "tweenTo ease d t start end' = start + (end' - start) * ease (min 1 (max 0 (t / d)))"

definition explosionDuration :: real where
  "explosionDuration = 1.0"

definition tl2Duration :: real where
  "tl2Duration = max 0.3 (max 0.5 explosionDuration)"

definition explodedPosition :: "ExplodeTween \<Rightarrow> Mesh \<Rightarrow> real \<Rightarrow> Vector3" where
  "explodedPosition tw mesh progress =
     (let t = progress * tl2Duration
      in \<lparr>x3 = tweenTo power2Out 0.5 t (x3 (position mesh)) (x3 (positionTo tw)),
          y3 = tweenTo power2Out 0.5 t (y3 (position mesh)) (y3 (positionTo tw)),
          z3 = tweenTo power2Out 0.5 t (z3 (position mesh)) (z3 (positionTo tw))\<rparr>)"

text \<open>The positions of all pieces when \<open>tl2\<close> is at \<open>progress\<close>.\<close>

definition explodedPositions :: "real \<Rightarrow> (nat \<Rightarrow> real) \<Rightarrow> nat \<Rightarrow> CubeGridState \<Rightarrow> real \<Rightarrow> Vector3 list" where
  "explodedPositions screenWidth rnd n g progress =
     map (\<lambda>(tw, mesh). explodedPosition tw mesh progress)
       (zip (explodeEach g screenWidth rnd n (cubesRefs g)) (cubesRefs g))"

section \<open>utils/createIconTexture.ts\<close>















section \<open>Properties of the grid builder\<close>

lemma upto_m1_1: "[- 1 .. 1 :: int] = [- 1, 0, 1]"
  by (simp add: upto_rec1)

lemma numToString_grid:
  "numToString (- 1) = ''-1''" "numToString 0 = ''0''" "numToString 1 = ''1''"
  by (simp_all add: numToString_def digitsOf.simps)

text \<open>
  Claim C1. For every random color stream the grid builder returns 27 piece descriptors,
  9 in each slice; the ids of the top, middle and bottom slice are the ids of the
  coordinates with y = 1, y = 0 and y = -1, each x and z of -1, 0, 1 taken once, every
  descriptor carries the layer name of its slice, and the 27 ids are pairwise different.
\<close>

theorem slices_cover_grid:
  "length (allCubes (slices rnd)) = 27
   \<and> length (top' (slices rnd)) = 9
   \<and> length (mid' (slices rnd)) = 9
   \<and> length (bot' (slices rnd)) = 9
   \<and> map id' (top' (slices rnd)) = concat (map (\<lambda>x. map (\<lambda>z. cubeId x 1 z) [- 1 .. 1]) [- 1 .. 1])
   \<and> map id' (mid' (slices rnd)) = concat (map (\<lambda>x. map (\<lambda>z. cubeId x 0 z) [- 1 .. 1]) [- 1 .. 1])
   \<and> map id' (bot' (slices rnd)) = concat (map (\<lambda>x. map (\<lambda>z. cubeId x (- 1) z) [- 1 .. 1]) [- 1 .. 1])
   \<and> map layer (top' (slices rnd)) = replicate 9 ''top''
   \<and> map layer (mid' (slices rnd)) = replicate 9 ''mid''
   \<and> map layer (bot' (slices rnd)) = replicate 9 ''bot''
   \<and> distinct (map id' (allCubes (slices rnd)))"
proof -
  note ev = allCubes_def slices_def gridLoops_def upto_m1_1 gridBody_def Let_def
  have len: "length (top' (slices rnd)) = 9" "length (mid' (slices rnd)) = 9"
    "length (bot' (slices rnd)) = 9"
    by (simp_all add: ev)
  have ids: "map id' (top' (slices rnd)) = concat (map (\<lambda>x. map (\<lambda>z. cubeId x 1 z) [- 1 .. 1]) [- 1 .. 1])"
    "map id' (mid' (slices rnd)) = concat (map (\<lambda>x. map (\<lambda>z. cubeId x 0 z) [- 1 .. 1]) [- 1 .. 1])"
    "map id' (bot' (slices rnd)) = concat (map (\<lambda>x. map (\<lambda>z. cubeId x (- 1) z) [- 1 .. 1]) [- 1 .. 1])"
    by (simp_all add: ev)
  have lay: "map layer (top' (slices rnd)) = replicate 9 ''top''"
    "map layer (mid' (slices rnd)) = replicate 9 ''mid''"
    "map layer (bot' (slices rnd)) = replicate 9 ''bot''"
    by (simp_all add: ev numeral_Bit0 numeral_Bit1)
  have dist: "distinct (map id' (allCubes (slices rnd)))"
    by (simp add: ev cubeId_def numToString_grid)
  have "length (allCubes (slices rnd)) = 27"
    using len by (simp add: allCubes_def)
  with len ids lay dist show ?thesis by blast
qed

text \<open>
  Claim C5. Two runs of the grid builder with any two random color streams give the same
  list of (id, icon glyph) pairs. The pairs that carry a glyph are exactly five: the ids
  of (0,1,0), (-1,0,0), (0,0,-1), (0,0,1) and (1,0,0), with the glyphs of the top, left,
  back, front and right face; they are the same for every stream.
\<close>

theorem icon_assignment_independent_of_colors:
  "map (\<lambda>c. (id' c, iconType c)) (allCubes (slices rnd1))
     = map (\<lambda>c. (id' c, iconType c)) (allCubes (slices rnd2))
   \<and> filter (\<lambda>p. snd p \<noteq> None) (map (\<lambda>c. (id' c, iconType c)) (allCubes (slices rnd1)))
     = [(cubeId 0 1 0, Some (CENTER_FACE_ICONS Top)),
        (cubeId (- 1) 0 0, Some (CENTER_FACE_ICONS Left)),
        (cubeId 0 0 (- 1), Some (CENTER_FACE_ICONS Back)),
        (cubeId 0 0 1, Some (CENTER_FACE_ICONS Front)),
        (cubeId 1 0 0, Some (CENTER_FACE_ICONS Right))]"
proof -
  note ev = allCubes_def slices_def gridLoops_def upto_m1_1 gridBody_def Let_def
  have same: "map (\<lambda>c. (id' c, iconType c)) (allCubes (slices rnd1))
     = map (\<lambda>c. (id' c, iconType c)) (allCubes (slices rnd2))"
    by (simp add: ev)
  have five: "filter (\<lambda>p. snd p \<noteq> None) (map (\<lambda>c. (id' c, iconType c)) (allCubes (slices rnd1)))
     = [(cubeId 0 1 0, Some (CENTER_FACE_ICONS Top)),
        (cubeId (- 1) 0 0, Some (CENTER_FACE_ICONS Left)),
        (cubeId 0 0 (- 1), Some (CENTER_FACE_ICONS Back)),
        (cubeId 0 0 1, Some (CENTER_FACE_ICONS Front)),
        (cubeId 1 0 0, Some (CENTER_FACE_ICONS Right))]"
    by (simp add: ev)
  from same five show ?thesis by blast
qed

section \<open>Properties of the vectors\<close>

lemma sum_squares3_eq_0: "(a * a + b * b + c * c = (0::real)) = (a = 0 \<and> b = 0 \<and> c = 0)"
proof
  assume h: "a * a + b * b + c * c = 0"
  have "0 \<le> a * a" "0 \<le> b * b" "0 \<le> c * c" by simp_all
  with h have "a * a = 0" "b * b = 0" "c * c = 0" by linarith+
  then show "a = 0 \<and> b = 0 \<and> c = 0" by simp
next
  assume "a = 0 \<and> b = 0 \<and> c = 0"
  then show "a * a + b * b + c * c = 0" by simp
qed

lemma lengthV_eq_0: "(lengthV v = 0) = (x3 v = 0 \<and> y3 v = 0 \<and> z3 v = 0)"
  by (simp add: lengthV_def sum_squares3_eq_0)

lemma lengthV_nonneg: "0 \<le> lengthV v"
  by (simp add: lengthV_def)

lemma normalizeV_zero: "lengthV v = 0 \<Longrightarrow> normalizeV v = \<lparr>x3 = 0, y3 = 0, z3 = 0\<rparr>"
  by (simp add: normalizeV_def divideScalar_def multiplyScalar_def lengthV_eq_0)

lemma lengthV_normalizeV: "lengthV v \<noteq> 0 \<Longrightarrow> lengthV (normalizeV v) = 1"
proof -
  assume nz: "lengthV v \<noteq> 0"
  let ?l = "lengthV v"
  have pos: "0 < ?l" using nz lengthV_nonneg [of v] by linarith
  have sq: "?l * ?l = x3 v * x3 v + y3 v * y3 v + z3 v * z3 v"
    unfolding lengthV_def
    by (simp add: add_nonneg_nonneg)
  have "x3 v * (1 / ?l) * (x3 v * (1 / ?l)) + y3 v * (1 / ?l) * (y3 v * (1 / ?l))
        + z3 v * (1 / ?l) * (z3 v * (1 / ?l))
      = (x3 v * x3 v + y3 v * y3 v + z3 v * z3 v) / (?l * ?l)"
    by (simp add: add_divide_distrib)
  also have "\<dots> = (?l * ?l) / (?l * ?l)" by (simp only: sq)
  also have "\<dots> = 1" using pos by simp
  finally show ?thesis
    using nz by (simp add: normalizeV_def divideScalar_def multiplyScalar_def lengthV_def)
qed

lemma explodeDirection_unit: "lengthV (explodeDirection p parentY) = 1"
proof (cases "lengthV \<lparr>x3 = x3 p, y3 = parentY, z3 = z3 p\<rparr> = 0")
  case True
  then show ?thesis
    by (simp add: explodeDirection_def normalizeV_zero) (simp add: lengthV_def)
next
  case False
  then show ?thesis
    by (simp add: explodeDirection_def lengthV_normalizeV)
qed

lemma distanceTo_less_iff:
  assumes "0 < r"
  shows "(distanceTo v w < r) =
     ((x3 v - x3 w) * (x3 v - x3 w) + (y3 v - y3 w) * (y3 v - y3 w) + (z3 v - z3 w) * (z3 v - z3 w) < r * r)"
proof -
  let ?s = "(x3 v - x3 w) * (x3 v - x3 w) + (y3 v - y3 w) * (y3 v - y3 w) + (z3 v - z3 w) * (z3 v - z3 w)"
  have "sqrt ?s < r \<longleftrightarrow> sqrt ?s < sqrt (r * r)" using assms by simp
  also have "\<dots> \<longleftrightarrow> ?s < r * r" by (rule real_sqrt_less_iff)
  finally show ?thesis by (simp add: distanceTo_def Let_def)
qed

lemma distanceTo_less_collisionMinDist:
  "(distanceTo v w < collisionMinDist) =
     ((x3 v - x3 w) * (x3 v - x3 w) + (y3 v - y3 w) * (y3 v - y3 w) + (z3 v - z3 w) * (z3 v - z3 w) < 121 / 100)"
proof -
  have "0 < collisionMinDist" by (simp add: collisionMinDist_def)
  from distanceTo_less_iff [OF this] show ?thesis by (simp add: collisionMinDist_def)
qed

lemma distanceTo_less_repulsionRadius:
  "(distanceTo v w < repulsionRadius) =
     ((x3 v - x3 w) * (x3 v - x3 w) + (y3 v - y3 w) * (y3 v - y3 w) + (z3 v - z3 w) * (z3 v - z3 w) < 16)"
proof -
  have "0 < repulsionRadius" by (simp add: repulsionRadius_def)
  from distanceTo_less_iff [OF this] show ?thesis by (simp add: repulsionRadius_def)
qed

section \<open>Properties of the physics activation\<close>

lemma initPhysics_foldl_length:
  "length (velocities (foldl (\<lambda>q i. q\<lparr>velocities := velocities q @ [a], offsets := offsets q @ [b]\<rparr>) p xs))
     = length (velocities p) + length xs"
  by (induction xs arbitrary: p) simp_all

lemma initPhysics_length: "length (velocities (initPhysics p)) = length (velocities p) + 27"
  by (simp add: initPhysics_def totalCubes_def initPhysics_foldl_length)

text \<open>
  Claim C3. The callback for crossing the end of the drop trigger forward sets \<open>active\<close>
  and leaves the velocities as they are; the callback for crossing it backward clears
  \<open>active\<close> and makes every velocity the zero vector, whatever the velocities were. The
  effect that fills the arrays of the initial state gives it 27 velocities and no event
  changes their number. A progress update of the scrub changes nothing of the physics
  state, and crossing forward twice is the same as crossing forward once.
\<close>

theorem physics_activation_latch:
  "active (tl3Trigger Leave p)
   \<and> velocities (tl3Trigger Leave p) = velocities p
   \<and> \<not> active (tl3Trigger EnterBack p)
   \<and> velocities (tl3Trigger EnterBack p) = replicate (length (velocities p)) \<lparr>x3 = 0, y3 = 0, z3 = 0\<rparr>
   \<and> length (velocities (initPhysics physicsRef)) = 27
   \<and> length (velocities (tl3Trigger e p)) = length (velocities p)
   \<and> tl3Trigger (Update progress) p = p
   \<and> tl3Trigger Leave (tl3Trigger Leave p) = tl3Trigger Leave p"
proof -
  have len: "length (velocities (tl3Trigger e p)) = length (velocities p)"
    by (cases e) (simp_all add: onLeave_def onEnterBack_def)
  have z: "velocities (tl3Trigger EnterBack p) = replicate (length (velocities p)) \<lparr>x3 = 0, y3 = 0, z3 = 0\<rparr>"
    by (simp add: onEnterBack_def map_replicate_const)
  show ?thesis using len z initPhysics_length [of physicsRef]
    by (simp add: onLeave_def onEnterBack_def physicsRef_def)
qed

section \<open>Properties of the physics loop\<close>

lemma jsIndex_nat: "jsIndex xs (int i) = (if i < length xs then Some (xs ! i) else None)"
  by (simp add: jsIndex_def)

lemma forEachM_append:
  "forEachM f (xs @ ys) s = (case forEachM f xs s of Inl e \<Rightarrow> Inl e | Inr s' \<Rightarrow> forEachM f ys s')"
  by (induction xs arbitrary: s) (auto split: sum.splits)

lemma forEachM_invariant:
  assumes step: "\<And>j s. j \<in> set js \<Longrightarrow> Q s \<Longrightarrow> \<exists>s'. f j s = Inr s' \<and> Q s'"
    and start: "Q s"
  shows "\<exists>s'. forEachM f js s = Inr s' \<and> Q s'"
  using assms
proof (induction js arbitrary: s)
  case Nil
  then show ?case by simp
next
  case (Cons j js)
  from Cons.prems obtain s1 where s1: "f j s = Inr s1" "Q s1"
    by (meson list.set_intros(1))
  have "\<exists>s'. forEachM f js s1 = Inr s' \<and> Q s'"
    by (rule Cons.IH) (use Cons.prems s1 in auto)
  with s1 show ?case by simp
qed

lemma freeMotion_frame:
  assumes "i < length (velocities (physics sc))"
  shows "\<exists>sc'. freeMotion fr rnd i sc = Inr sc'
           \<and> length (cubes sc') = length (cubes sc)
           \<and> length (velocities (physics sc')) = length (velocities (physics sc))
           \<and> dragRef sc' = dragRef sc
           \<and> active (physics sc') = active (physics sc)
           \<and> (\<forall>k. k \<noteq> i \<longrightarrow> cubes sc' ! k = cubes sc ! k
                  \<and> velocities (physics sc') ! k = velocities (physics sc) ! k)"
  using assms by (simp add: freeMotion_def jsIndex_nat Let_def)

lemma freeMotion_at:
  assumes "i < length (velocities (physics sc))" and "i < length (cubes sc)"
  shows "\<exists>sc'. freeMotion fr rnd i sc = Inr sc'
           \<and> x3 (cubes sc' ! i) =
               x3 (fst (wallCollision (viewportWidth fr / 2)
                     (cubes sc ! i, fst (preWallVelocity fr rnd i sc (velocities (physics sc) ! i)))))
               + x3 (snd (wallCollision (viewportWidth fr / 2)
                     (cubes sc ! i, fst (preWallVelocity fr rnd i sc (velocities (physics sc) ! i)))))
                 * delta fr
           \<and> velocities (physics sc') ! i =
               multiplyScalar (snd (wallCollision (viewportWidth fr / 2)
                     (cubes sc ! i, fst (preWallVelocity fr rnd i sc (velocities (physics sc) ! i))))) drag"
  using assms by (simp add: freeMotion_def jsIndex_nat Let_def)

lemma wallCollision_right:
  assumes "safeBoundary w < x3 p"
  shows "wallCollision w (p, v) = (p\<lparr>x3 := safeBoundary w\<rparr>, v\<lparr>x3 := x3 v * (- 0.8)\<rparr>)"
  using assms by (simp add: wallCollision_def)

lemma pushOther_step:
  assumes "j < length (velocities (physics sc))"
  shows "pushOther fr i j sc =
           Inr (sc\<lparr>physics := (physics sc)\<lparr>velocities := (velocities (physics sc))
             [j := (if j \<noteq> i \<and> distanceTo (cubes sc ! i) (worldOf fr j (cubes sc ! j)) < 1.3
                    then addV (velocities (physics sc) ! j)
                           (multiplyScalar (normalizeV (subV (worldOf fr j (cubes sc ! j)) (cubes sc ! i)))
                              ((1.3 - distanceTo (cubes sc ! i) (worldOf fr j (cubes sc ! j))) * 30 * delta fr))
                    else velocities (physics sc) ! j)]\<rparr>\<rparr>)"
  using assms by (simp add: pushOther_def jsIndex_nat Let_def)

lemma pushOther_loop:
  assumes "distinct js" and "\<forall>j\<in>set js. j < length (velocities (physics sc))"
  shows "\<exists>sc'. forEachM (pushOther fr i) js sc = Inr sc'
           \<and> cubes sc' = cubes sc \<and> dragRef sc' = dragRef sc
           \<and> active (physics sc') = active (physics sc)
           \<and> length (velocities (physics sc')) = length (velocities (physics sc))
           \<and> (\<forall>k. velocities (physics sc') ! k =
                 (if k \<in> set js \<and> k \<noteq> i
                       \<and> distanceTo (cubes sc ! i) (worldOf fr k (cubes sc ! k)) < 1.3
                  then addV (velocities (physics sc) ! k)
                         (multiplyScalar (normalizeV (subV (worldOf fr k (cubes sc ! k)) (cubes sc ! i)))
                            ((1.3 - distanceTo (cubes sc ! i) (worldOf fr k (cubes sc ! k))) * 30 * delta fr))
                  else velocities (physics sc) ! k))"
  using assms
proof (induction js arbitrary: sc)
  case Nil
  then show ?case by simp
next
  case (Cons j js)
  let ?vs = "velocities (physics sc)"
  let ?new = "(if j \<noteq> i \<and> distanceTo (cubes sc ! i) (worldOf fr j (cubes sc ! j)) < 1.3
                    then addV (?vs ! j)
                           (multiplyScalar (normalizeV (subV (worldOf fr j (cubes sc ! j)) (cubes sc ! i)))
                              ((1.3 - distanceTo (cubes sc ! i) (worldOf fr j (cubes sc ! j))) * 30 * delta fr))
                    else ?vs ! j)"
  let ?s1 = "sc\<lparr>physics := (physics sc)\<lparr>velocities := ?vs[j := ?new]\<rparr>\<rparr>"
  have j: "j < length ?vs" using Cons.prems by simp
  have step: "pushOther fr i j sc = Inr ?s1"
    using pushOther_step [OF j] by simp
  have d: "distinct js" "j \<notin> set js" using Cons.prems by simp_all
  have b: "\<forall>k\<in>set js. k < length (velocities (physics ?s1))" using Cons.prems by simp
  from Cons.IH [OF d(1) b] obtain sc' where
    r: "forEachM (pushOther fr i) js ?s1 = Inr sc'"
    and f: "cubes sc' = cubes ?s1" "dragRef sc' = dragRef ?s1"
      "active (physics sc') = active (physics ?s1)"
      "length (velocities (physics sc')) = length (velocities (physics ?s1))"
    and v: "\<forall>k. velocities (physics sc') ! k =
                 (if k \<in> set js \<and> k \<noteq> i
                       \<and> distanceTo (cubes ?s1 ! i) (worldOf fr k (cubes ?s1 ! k)) < 1.3
                  then addV (velocities (physics ?s1) ! k)
                         (multiplyScalar (normalizeV (subV (worldOf fr k (cubes ?s1 ! k)) (cubes ?s1 ! i)))
                            ((1.3 - distanceTo (cubes ?s1 ! i) (worldOf fr k (cubes ?s1 ! k))) * 30 * delta fr))
                  else velocities (physics ?s1) ! k)"
    by blast
  have run: "forEachM (pushOther fr i) (j # js) sc = Inr sc'"
    using step r by simp
  have vel: "velocities (physics sc') ! k =
                 (if k \<in> set (j # js) \<and> k \<noteq> i
                       \<and> distanceTo (cubes sc ! i) (worldOf fr k (cubes sc ! k)) < 1.3
                  then addV (?vs ! k)
                         (multiplyScalar (normalizeV (subV (worldOf fr k (cubes sc ! k)) (cubes sc ! i)))
                            ((1.3 - distanceTo (cubes sc ! i) (worldOf fr k (cubes sc ! k))) * 30 * delta fr))
                  else ?vs ! k)" for k
  proof (cases "k = j")
    case True
    then show ?thesis using v [rule_format, of k] d(2) j by simp
  next
    case False
    then show ?thesis using v [rule_format, of k] by simp
  qed
  show ?case using run f vel by simp
qed

lemma dragLogic_result:
  assumes i: "i < length (cubes sc)"
    and len: "length (velocities (physics sc)) = length (cubes sc)"
  shows "\<exists>sd. dragLogic fr i sc = Inr sd
           \<and> cubes sd = (cubes sc)[i := lerp (cubes sc ! i) (dragTarget fr) 0.2]
           \<and> dragRef sd = dragRef sc
           \<and> active (physics sd) = active (physics sc)
           \<and> length (velocities (physics sd)) = length (velocities (physics sc))
           \<and> velocities (physics sd) ! i = multiplyScalar (subV (dragTarget fr) (cubes sc ! i)) 10
           \<and> (\<forall>k. k \<noteq> i \<longrightarrow> k < length (cubes sc) \<longrightarrow>
                 velocities (physics sd) ! k =
                   (if distanceTo (cubes sd ! i) (worldOf fr k (cubes sc ! k)) < 1.3
                    then addV (velocities (physics sc) ! k)
                           (multiplyScalar (normalizeV (subV (worldOf fr k (cubes sc ! k)) (cubes sd ! i)))
                              ((1.3 - distanceTo (cubes sd ! i) (worldOf fr k (cubes sc ! k))) * 30 * delta fr))
                    else velocities (physics sc) ! k))"
proof -
  let ?s2 = "sc\<lparr>physics := (physics sc)\<lparr>velocities :=
                 (velocities (physics sc))[i := multiplyScalar (subV (dragTarget fr) (cubes sc ! i)) 10]\<rparr>,
               cubes := (cubes sc)[i := lerp (cubes sc ! i) (dragTarget fr) 0.2]\<rparr>"
  have unfold: "dragLogic fr i sc = forEachM (pushOther fr i) [0 ..< length (cubes sc)] ?s2"
    using i len by (simp add: dragLogic_def jsIndex_nat Let_def)
  have b: "\<forall>j\<in>set [0 ..< length (cubes sc)]. j < length (velocities (physics ?s2))"
    using len by simp
  from pushOther_loop [OF distinct_upt b, of fr i] obtain sd where
    r: "forEachM (pushOther fr i) [0 ..< length (cubes sc)] ?s2 = Inr sd"
    and f: "cubes sd = cubes ?s2" "dragRef sd = dragRef ?s2"
      "active (physics sd) = active (physics ?s2)"
      "length (velocities (physics sd)) = length (velocities (physics ?s2))"
    and v: "\<forall>k. velocities (physics sd) ! k =
                 (if k \<in> set [0 ..< length (cubes sc)] \<and> k \<noteq> i
                       \<and> distanceTo (cubes ?s2 ! i) (worldOf fr k (cubes ?s2 ! k)) < 1.3
                  then addV (velocities (physics ?s2) ! k)
                         (multiplyScalar (normalizeV (subV (worldOf fr k (cubes ?s2 ! k)) (cubes ?s2 ! i)))
                            ((1.3 - distanceTo (cubes ?s2 ! i) (worldOf fr k (cubes ?s2 ! k))) * 30 * delta fr))
                  else velocities (physics ?s2) ! k)"
    by blast
  have vi: "velocities (physics sd) ! i = multiplyScalar (subV (dragTarget fr) (cubes sc ! i)) 10"
    using v [rule_format, of i] i len by simp
  have vk: "velocities (physics sd) ! k =
                   (if distanceTo (cubes sd ! i) (worldOf fr k (cubes sc ! k)) < 1.3
                    then addV (velocities (physics sc) ! k)
                           (multiplyScalar (normalizeV (subV (worldOf fr k (cubes sc ! k)) (cubes sd ! i)))
                              ((1.3 - distanceTo (cubes sd ! i) (worldOf fr k (cubes sc ! k))) * 30 * delta fr))
                    else velocities (physics sc) ! k)"
    if "k \<noteq> i" "k < length (cubes sc)" for k
    using v [rule_format, of k] that f(1) i by simp
  show ?thesis
    using unfold r f vi vk by simp
qed

lemma other_steps_keep:
  assumes js: "\<forall>j\<in>set js. j \<noteq> i \<and> j < n"
    and d: "d = None \<or> d = Some i"
    and q: "length (cubes s) = n \<and> length (velocities (physics s)) = n \<and> dragRef s = d
            \<and> cubes s ! i = p \<and> velocities (physics s) ! i = v"
  shows "\<exists>s'. forEachM (physicsStep fr rnd) js s = Inr s'
           \<and> (length (cubes s') = n \<and> length (velocities (physics s')) = n \<and> dragRef s' = d
            \<and> cubes s' ! i = p \<and> velocities (physics s') ! i = v)"
proof (rule forEachM_invariant [where Q = "\<lambda>s::Scene. length (cubes s) = n \<and> length (velocities (physics s)) = n
            \<and> dragRef s = d \<and> cubes s ! i = p \<and> velocities (physics s) ! i = v"])
  fix j and t :: Scene
  assume j: "j \<in> set js"
    and t: "length (cubes t) = n \<and> length (velocities (physics t)) = n \<and> dragRef t = d
            \<and> cubes t ! i = p \<and> velocities (physics t) ! i = v"
  have ji: "j \<noteq> i" "j < n" using js j by auto
  have free: "physicsStep fr rnd j t = freeMotion fr rnd j t"
    using d t ji by (auto simp add: physicsStep_def)
  have "j < length (velocities (physics t))" using t ji by simp
  from freeMotion_frame [OF this, of fr rnd] obtain t' where
    "freeMotion fr rnd j t = Inr t'"
    "length (cubes t') = length (cubes t)"
    "length (velocities (physics t')) = length (velocities (physics t))"
    "dragRef t' = dragRef t"
    "\<forall>k. k \<noteq> j \<longrightarrow> cubes t' ! k = cubes t ! k
                  \<and> velocities (physics t') ! k = velocities (physics t) ! k"
    by blast
  then show "\<exists>t'. physicsStep fr rnd j t = Inr t'
           \<and> (length (cubes t') = n \<and> length (velocities (physics t')) = n \<and> dragRef t' = d
            \<and> cubes t' ! i = p \<and> velocities (physics t') ! i = v)"
    using free t ji by auto
next
  show "length (cubes s) = n \<and> length (velocities (physics s)) = n \<and> dragRef s = d
            \<and> cubes s ! i = p \<and> velocities (physics s) ! i = v"
    by (rule q)
qed

lemma physicsStep_keeps_shape:
  assumes i: "i < length (cubes s)"
    and len: "length (velocities (physics s)) = length (cubes s)"
  shows "\<exists>s'. physicsStep fr rnd i s = Inr s'
           \<and> length (cubes s') = length (cubes s)
           \<and> length (velocities (physics s')) = length (cubes s)
           \<and> dragRef s' = dragRef s"
proof (cases "dragRef s = Some i")
  case True
  from dragLogic_result [OF i len, of fr] obtain sd where
    "dragLogic fr i s = Inr sd"
    "cubes sd = (cubes s)[i := lerp (cubes s ! i) (dragTarget fr) 0.2]"
    "dragRef sd = dragRef s"
    "length (velocities (physics sd)) = length (velocities (physics s))"
    by blast
  then show ?thesis using True len by (simp add: physicsStep_def)
next
  case False
  have "i < length (velocities (physics s))" using i len by simp
  from freeMotion_frame [OF this, of fr rnd] obtain s' where
    "freeMotion fr rnd i s = Inr s'"
    "length (cubes s') = length (cubes s)"
    "length (velocities (physics s')) = length (velocities (physics s))"
    "dragRef s' = dragRef s"
    by blast
  then show ?thesis using False len by (simp add: physicsStep_def)
qed

lemma physicsLoop_piece:
  assumes act: "active (physics sc)"
    and i: "i < length (cubes sc)"
    and len: "length (velocities (physics sc)) = length (cubes sc)"
    and d: "dragRef sc = None \<or> dragRef sc = Some i"
  shows "\<exists>sci si sc'. forEachM (physicsStep fr rnd) [0 ..< i] sc = Inr sci
      \<and> length (cubes sci) = length (cubes sc)
      \<and> length (velocities (physics sci)) = length (cubes sc)
      \<and> dragRef sci = dragRef sc
      \<and> cubes sci ! i = cubes sc ! i
      \<and> velocities (physics sci) ! i = velocities (physics sc) ! i
      \<and> physicsStep fr rnd i sci = Inr si
      \<and> physicsLoop fr rnd sc = Inr sc'
      \<and> cubes sc' ! i = cubes si ! i
      \<and> velocities (physics sc') ! i = velocities (physics si) ! i"
proof -
  let ?n = "length (cubes sc)"
  let ?f = "physicsStep fr rnd"
  have split: "[0 ..< ?n] = [0 ..< i] @ i # [Suc i ..< ?n]"
    using i by (metis le0 upt_add_eq_append upt_conv_Cons le_add_diff_inverse less_imp_le_nat add.commute)
  have "\<forall>j\<in>set [0 ..< i]. j \<noteq> i \<and> j < ?n" using i by auto
  from other_steps_keep [OF this d, of sc "cubes sc ! i" "velocities (physics sc) ! i" fr rnd]
  obtain sci where sci: "forEachM ?f [0 ..< i] sc = Inr sci"
    "length (cubes sci) = ?n" "length (velocities (physics sci)) = ?n" "dragRef sci = dragRef sc"
    "cubes sci ! i = cubes sc ! i" "velocities (physics sci) ! i = velocities (physics sc) ! i"
    using len by auto
  have "i < length (cubes sci)" "length (velocities (physics sci)) = length (cubes sci)"
    using sci i by simp_all
  from physicsStep_keeps_shape [OF this, of fr rnd] obtain si where si: "?f i sci = Inr si"
    "length (cubes si) = ?n" "length (velocities (physics si)) = ?n" "dragRef si = dragRef sc"
    using sci by auto
  have "\<forall>j\<in>set [Suc i ..< ?n]. j \<noteq> i \<and> j < ?n" by auto
  from other_steps_keep [OF this d, of si "cubes si ! i" "velocities (physics si) ! i" fr rnd]
  obtain sc' where sc': "forEachM ?f [Suc i ..< ?n] si = Inr sc'"
    "cubes sc' ! i = cubes si ! i" "velocities (physics sc') ! i = velocities (physics si) ! i"
    using si by auto
  have "physicsLoop fr rnd sc = Inr sc'"
    using act sci(1) si(1) sc'(1) by (simp add: physicsLoop_def split forEachM_append)
  then show ?thesis using sci si sc' by blast
qed

lemma freeMotion_beyond_wall:
  assumes i: "i < length (cubes sc)"
    and len: "length (velocities (physics sc)) = length (cubes sc)"
    and out: "safeBoundary (viewportWidth fr / 2) < x3 (cubes sc ! i)"
  shows "\<exists>sc'. freeMotion fr rnd i sc = Inr sc'
           \<and> x3 (cubes sc' ! i) = safeBoundary (viewportWidth fr / 2)
               + x3 (fst (preWallVelocity fr rnd i sc (velocities (physics sc) ! i))) * (- 0.8) * delta fr
           \<and> x3 (velocities (physics sc') ! i) =
               x3 (fst (preWallVelocity fr rnd i sc (velocities (physics sc) ! i))) * (- 0.8) * drag"
proof -
  have "i < length (velocities (physics sc))" using i len by simp
  from freeMotion_at [OF this i, of fr rnd] obtain sc' where
    r: "freeMotion fr rnd i sc = Inr sc'"
    and px: "x3 (cubes sc' ! i) =
               x3 (fst (wallCollision (viewportWidth fr / 2)
                     (cubes sc ! i, fst (preWallVelocity fr rnd i sc (velocities (physics sc) ! i)))))
               + x3 (snd (wallCollision (viewportWidth fr / 2)
                     (cubes sc ! i, fst (preWallVelocity fr rnd i sc (velocities (physics sc) ! i)))))
                 * delta fr"
    and v: "velocities (physics sc') ! i =
               multiplyScalar (snd (wallCollision (viewportWidth fr / 2)
                     (cubes sc ! i, fst (preWallVelocity fr rnd i sc (velocities (physics sc) ! i))))) drag"
    by blast
  have "x3 (cubes sc' ! i) = safeBoundary (viewportWidth fr / 2)
               + x3 (fst (preWallVelocity fr rnd i sc (velocities (physics sc) ! i))) * (- 0.8) * delta fr"
    using px by (simp add: wallCollision_right [OF out])
  moreover have "x3 (velocities (physics sc') ! i) =
               x3 (fst (preWallVelocity fr rnd i sc (velocities (physics sc) ! i))) * (- 0.8) * drag"
    using v by (simp add: wallCollision_right [OF out] multiplyScalar_def)
  ultimately show ?thesis using r by blast
qed

lemma physicsLoop_beyond_wall:
  assumes i: "i < length (cubes sc)"
    and len: "length (velocities (physics sc)) = length (cubes sc)"
    and out: "safeBoundary (viewportWidth fr / 2) < x3 (cubes sc ! i)"
    and act: "active (physics sc)"
    and nodrag: "dragRef sc = None"
  shows "\<exists>sci sc'. forEachM (physicsStep fr rnd) [0 ..< i] sc = Inr sci
              \<and> cubes sci ! i = cubes sc ! i
              \<and> velocities (physics sci) ! i = velocities (physics sc) ! i
              \<and> physicsLoop fr rnd sc = Inr sc'
              \<and> x3 (cubes sc' ! i) = safeBoundary (viewportWidth fr / 2)
                  + x3 (fst (preWallVelocity fr rnd i sci (velocities (physics sc) ! i))) * (- 0.8) * delta fr
              \<and> x3 (velocities (physics sc') ! i) =
                  x3 (fst (preWallVelocity fr rnd i sci (velocities (physics sc) ! i))) * (- 0.8) * drag"
proof -
  have d: "dragRef sc = None \<or> dragRef sc = Some i" using nodrag by simp
  from physicsLoop_piece [OF act i len d, of fr rnd] obtain sci si sc' where
    sci: "forEachM (physicsStep fr rnd) [0 ..< i] sc = Inr sci"
      "length (cubes sci) = length (cubes sc)"
      "length (velocities (physics sci)) = length (cubes sc)"
      "dragRef sci = dragRef sc"
      "cubes sci ! i = cubes sc ! i"
      "velocities (physics sci) ! i = velocities (physics sc) ! i"
    and si: "physicsStep fr rnd i sci = Inr si"
    and sc': "physicsLoop fr rnd sc = Inr sc'"
      "cubes sc' ! i = cubes si ! i"
      "velocities (physics sc') ! i = velocities (physics si) ! i"
    by blast
  have free: "physicsStep fr rnd i sci = freeMotion fr rnd i sci"
    using sci(4) nodrag by (simp add: physicsStep_def)
  have i': "i < length (cubes sci)" using i sci(2) by simp
  have len': "length (velocities (physics sci)) = length (cubes sci)" using sci by simp
  have out': "safeBoundary (viewportWidth fr / 2) < x3 (cubes sci ! i)" using out sci(5) by simp
  from freeMotion_beyond_wall [OF i' len' out', of rnd] si free sci(6)
  have "x3 (cubes si ! i) = safeBoundary (viewportWidth fr / 2)
                  + x3 (fst (preWallVelocity fr rnd i sci (velocities (physics sc) ! i))) * (- 0.8) * delta fr
        \<and> x3 (velocities (physics si) ! i) =
                  x3 (fst (preWallVelocity fr rnd i sci (velocities (physics sc) ! i))) * (- 0.8) * drag"
    by simp
  with sci sc' show ?thesis by auto
qed

lemma upt_27: "[0 ..< 27] = [0, 1, 2, 3, 4, 5, 6, 7, 8, 9, 10, 11, 12, 13, 14, 15, 16, 17, 18, 19, 20,
    21, 22, 23, 24, 25, 26 :: nat]"
  by code_simp

lemma collide_fold_no_contact:
  assumes "\<forall>j\<in>set js. j \<noteq> i \<longrightarrow> \<not> distanceTo cw (worldOf fr j (cubes sc ! j)) < collisionMinDist"
  shows "foldl (\<lambda>acc j. collideWith fr rnd sc i cw j acc) acc js = acc"
  using assms by (induction js arbitrary: acc) (simp_all add: collideWith_def Let_def)

lemma cubeCollision_no_contact:
  assumes "\<forall>j\<in>set [0 ..< length (cubes sc)]. j \<noteq> i \<longrightarrow>
             \<not> distanceTo cw (worldOf fr j (cubes sc ! j)) < collisionMinDist"
  shows "cubeCollision fr rnd sc i cw v = (v, randomCalls sc)"
  unfolding cubeCollision_def by (rule collide_fold_no_contact [OF assms])

lemma mouseRepulsion_far:
  assumes "\<not> distanceTo \<lparr>x3 = x3 cw, y3 = PHYSICS_FLOOR_Y, z3 = z3 cw\<rparr>
             \<lparr>x3 = x3 (mouseWorldPos fr), y3 = PHYSICS_FLOOR_Y, z3 = z3 (mouseWorldPos fr)\<rparr> < repulsionRadius"
  shows "mouseRepulsion fr d cw v = v"
  using assms by (simp add: mouseRepulsion_def Let_def)

text \<open>
  Claim C2, as amended. For a piece that is not dragged and whose x position exceeds the
  safe half-width, the wall check sets x to the half-width and multiplies velocity.x by
  -0.8, and the same step then adds velocity.x times the frame time to x and multiplies
  the velocity by the drag 0.96. After the step x is the half-width minus 0.8 v delta and
  velocity.x is -0.768 v, where v is the x velocity of the piece when its wall check runs:
  its velocity with the repulsion and collision impulses of the frame added. The same
  holds after the whole frame when no piece is dragged, the impulses being those computed
  in the state the earlier pieces of the frame have left.
\<close>

theorem wall_clamp_then_integrate:
  assumes i: "i < length (cubes sc)"
    and len: "length (velocities (physics sc)) = length (cubes sc)"
    and out: "safeBoundary (viewportWidth fr / 2) < x3 (cubes sc ! i)"
  shows "(dragRef sc \<noteq> Some i \<longrightarrow>
           (\<exists>sc'. physicsStep fr rnd i sc = Inr sc'
              \<and> x3 (cubes sc' ! i) = safeBoundary (viewportWidth fr / 2)
                  + x3 (fst (preWallVelocity fr rnd i sc (velocities (physics sc) ! i))) * (- 0.8) * delta fr
              \<and> x3 (velocities (physics sc') ! i) =
                  x3 (fst (preWallVelocity fr rnd i sc (velocities (physics sc) ! i))) * (- 0.8) * drag))
       \<and> (active (physics sc) \<and> dragRef sc = None \<longrightarrow>
           (\<exists>sci sc'. forEachM (physicsStep fr rnd) [0 ..< i] sc = Inr sci
              \<and> cubes sci ! i = cubes sc ! i
              \<and> velocities (physics sci) ! i = velocities (physics sc) ! i
              \<and> physicsLoop fr rnd sc = Inr sc'
              \<and> x3 (cubes sc' ! i) = safeBoundary (viewportWidth fr / 2)
                  + x3 (fst (preWallVelocity fr rnd i sci (velocities (physics sc) ! i))) * (- 0.8) * delta fr
              \<and> x3 (velocities (physics sc') ! i) =
                  x3 (fst (preWallVelocity fr rnd i sci (velocities (physics sc) ! i))) * (- 0.8) * drag))
       \<and> (- 0.8) * drag = - 0.768"
proof (intro conjI impI)
  assume "dragRef sc \<noteq> Some i"
  then have "physicsStep fr rnd i sc = freeMotion fr rnd i sc"
    by (simp add: physicsStep_def)
  with freeMotion_beyond_wall [OF i len out, of rnd]
  show "\<exists>sc'. physicsStep fr rnd i sc = Inr sc'
              \<and> x3 (cubes sc' ! i) = safeBoundary (viewportWidth fr / 2)
                  + x3 (fst (preWallVelocity fr rnd i sc (velocities (physics sc) ! i))) * (- 0.8) * delta fr
              \<and> x3 (velocities (physics sc') ! i) =
                  x3 (fst (preWallVelocity fr rnd i sc (velocities (physics sc) ! i))) * (- 0.8) * drag"
    by simp
next
  assume a: "active (physics sc) \<and> dragRef sc = None"
  then have act: "active (physics sc)" and nodrag: "dragRef sc = None" by simp_all
  show "\<exists>sci sc'. forEachM (physicsStep fr rnd) [0 ..< i] sc = Inr sci
              \<and> cubes sci ! i = cubes sc ! i
              \<and> velocities (physics sci) ! i = velocities (physics sc) ! i
              \<and> physicsLoop fr rnd sc = Inr sc'
              \<and> x3 (cubes sc' ! i) = safeBoundary (viewportWidth fr / 2)
                  + x3 (fst (preWallVelocity fr rnd i sci (velocities (physics sc) ! i))) * (- 0.8) * delta fr
              \<and> x3 (velocities (physics sc') ! i) =
                  x3 (fst (preWallVelocity fr rnd i sci (velocities (physics sc) ! i))) * (- 0.8) * drag"
    by (rule physicsLoop_beyond_wall [OF i len out act nodrag])
next
  show "(- 0.8) * drag = - 0.768" by (simp add: drag_def)
qed

text \<open>
  The theorem at a scene of 27 pieces in a row beyond the right wall of a viewport 6 wide:
  the step of piece 2 while piece 5 is dragged, and the frame when no piece is dragged.
\<close>

theorem wall_clamp_then_integrate_witness:
  "(let fr = \<lparr>mouseWorldPos = \<lparr>x3 = 1, y3 = - 5, z3 = 1\<rparr>, delta = 1 / 60, elapsedTime = 2,
               viewportWidth = 6, worldOf = (\<lambda>i p. p)\<rparr>;
        rnd = (\<lambda>n. 1 / 4);
        sc = \<lparr>cubes = map (\<lambda>k. \<lparr>x3 = 4, y3 = - 5, z3 = real k\<rparr>) [0 ..< 27],
               physics = \<lparr>active = True, velocities = replicate 27 \<lparr>x3 = 2, y3 = 0, z3 = 1\<rparr>,
                          offsets = replicate 27 \<lparr>x3 = 0, y3 = 0, z3 = 0\<rparr>\<rparr>,
               dragRef = Some 5, randomCalls = 0\<rparr>;
        sn = sc\<lparr>dragRef := None\<rparr>
    in 2 < length (cubes sc)
       \<and> length (velocities (physics sc)) = length (cubes sc)
       \<and> safeBoundary (viewportWidth fr / 2) < x3 (cubes sc ! 2)
       \<and> dragRef sc \<noteq> Some 2
       \<and> (\<exists>sc'. physicsStep fr rnd 2 sc = Inr sc'
              \<and> x3 (cubes sc' ! 2) = safeBoundary (viewportWidth fr / 2)
                  + x3 (fst (preWallVelocity fr rnd 2 sc (velocities (physics sc) ! 2))) * (- 0.8) * delta fr
              \<and> x3 (velocities (physics sc') ! 2) =
                  x3 (fst (preWallVelocity fr rnd 2 sc (velocities (physics sc) ! 2))) * (- 0.8) * drag)
       \<and> active (physics sn) \<and> dragRef sn = None
       \<and> (\<exists>sci sc'. forEachM (physicsStep fr rnd) [0 ..< 2] sn = Inr sci
              \<and> physicsLoop fr rnd sn = Inr sc'
              \<and> x3 (cubes sc' ! 2) = safeBoundary (viewportWidth fr / 2)
                  + x3 (fst (preWallVelocity fr rnd 2 sci (velocities (physics sn) ! 2))) * (- 0.8) * delta fr
              \<and> x3 (velocities (physics sc') ! 2) =
                  x3 (fst (preWallVelocity fr rnd 2 sci (velocities (physics sn) ! 2))) * (- 0.8) * drag))"
proof -
  let ?fr = "\<lparr>mouseWorldPos = \<lparr>x3 = 1, y3 = - 5, z3 = 1\<rparr>, delta = 1 / 60, elapsedTime = 2,
               viewportWidth = 6, worldOf = (\<lambda>i p. p)\<rparr> :: Frame"
  let ?rnd = "(\<lambda>n. 1 / 4) :: nat \<Rightarrow> real"
  let ?sc = "\<lparr>cubes = map (\<lambda>k. \<lparr>x3 = 4, y3 = - 5, z3 = real k\<rparr>) [0 ..< 27],
               physics = \<lparr>active = True, velocities = replicate 27 \<lparr>x3 = 2, y3 = 0, z3 = 1\<rparr>,
                          offsets = replicate 27 \<lparr>x3 = 0, y3 = 0, z3 = 0\<rparr>\<rparr>,
               dragRef = Some 5, randomCalls = 0\<rparr> :: Scene"
  let ?sn = "?sc\<lparr>dragRef := None\<rparr>"
  have h1: "2 < length (cubes ?sc)" by simp
  have h2: "length (velocities (physics ?sc)) = length (cubes ?sc)" by simp
  have h3: "safeBoundary (viewportWidth ?fr / 2) < x3 (cubes ?sc ! 2)"
    by (simp add: safeBoundary_def)
  have nd: "dragRef ?sc \<noteq> Some 2" by simp
  from wall_clamp_then_integrate [OF h1 h2 h3, of ?rnd] nd
  have a: "\<exists>sc'. physicsStep ?fr ?rnd 2 ?sc = Inr sc'
              \<and> x3 (cubes sc' ! 2) = safeBoundary (viewportWidth ?fr / 2)
                  + x3 (fst (preWallVelocity ?fr ?rnd 2 ?sc (velocities (physics ?sc) ! 2))) * (- 0.8) * delta ?fr
              \<and> x3 (velocities (physics sc') ! 2) =
                  x3 (fst (preWallVelocity ?fr ?rnd 2 ?sc (velocities (physics ?sc) ! 2))) * (- 0.8) * drag"
    by blast
  have g1: "2 < length (cubes ?sn)" by simp
  have g2: "length (velocities (physics ?sn)) = length (cubes ?sn)" by simp
  have g3: "safeBoundary (viewportWidth ?fr / 2) < x3 (cubes ?sn ! 2)"
    by (simp add: safeBoundary_def)
  have g4: "active (physics ?sn) \<and> dragRef ?sn = None" by simp
  from wall_clamp_then_integrate [OF g1 g2 g3, of ?rnd] g4
  have b: "\<exists>sci sc'. forEachM (physicsStep ?fr ?rnd) [0 ..< 2] ?sn = Inr sci
              \<and> physicsLoop ?fr ?rnd ?sn = Inr sc'
              \<and> x3 (cubes sc' ! 2) = safeBoundary (viewportWidth ?fr / 2)
                  + x3 (fst (preWallVelocity ?fr ?rnd 2 sci (velocities (physics ?sn) ! 2))) * (- 0.8) * delta ?fr
              \<and> x3 (velocities (physics sc') ! 2) =
                  x3 (fst (preWallVelocity ?fr ?rnd 2 sci (velocities (physics ?sn) ! 2))) * (- 0.8) * drag"
    by blast
  from h1 h2 h3 nd a g4 b show ?thesis unfolding Let_def by blast
qed

text \<open>
  Claim C2 as the specification states it fails. In a scene of 27 pieces that touch
  neither each other nor the pointer, in a viewport 8 wide (half-width 3), piece 0 is at
  x = 3.2 with velocity.x = 1 and the frame time is 0.1. After the frame its x is 2.92,
  not 3, and its velocity.x is -0.768, not -0.8.
\<close>

theorem boundary_clamp_counterexample:
  "(let fr = \<lparr>mouseWorldPos = \<lparr>x3 = 0, y3 = - 5, z3 = 20\<rparr>, delta = 1 / 10, elapsedTime = 0,
               viewportWidth = 8, worldOf = (\<lambda>i p. p)\<rparr>;
        rnd = (\<lambda>n. 1 / 2);
        sc = \<lparr>cubes = map (\<lambda>k. \<lparr>x3 = 16 / 5 - 3 * real (k mod 3), y3 = - 5,
                                   z3 = 6 / 5 * real (k div 3) - 24 / 5\<rparr>) [0 ..< 27],
               physics = \<lparr>active = True, velocities = replicate 27 \<lparr>x3 = 1, y3 = 0, z3 = 0\<rparr>,
                          offsets = replicate 27 \<lparr>x3 = 0, y3 = 0, z3 = 0\<rparr>\<rparr>,
               dragRef = None, randomCalls = 0\<rparr>;
        sc' = projr (physicsLoop fr rnd sc)
    in safeBoundary (viewportWidth fr / 2) = 3
       \<and> x3 (cubes sc ! 0) = 16 / 5
       \<and> fst (preWallVelocity fr rnd 0 sc (velocities (physics sc) ! 0)) = \<lparr>x3 = 1, y3 = 0, z3 = 0\<rparr>
       \<and> x3 (cubes sc' ! 0) = 73 / 25
       \<and> x3 (velocities (physics sc') ! 0) = - (96 / 125)
       \<and> x3 (cubes sc' ! 0) \<noteq> safeBoundary (viewportWidth fr / 2)
       \<and> \<bar>x3 (velocities (physics sc') ! 0)\<bar> \<noteq> 0.8 * \<bar>1\<bar>)"
proof -
  let ?fr = "\<lparr>mouseWorldPos = \<lparr>x3 = 0, y3 = - 5, z3 = 20\<rparr>, delta = 1 / 10, elapsedTime = 0,
               viewportWidth = 8, worldOf = (\<lambda>i p. p)\<rparr> :: Frame"
  let ?rnd = "(\<lambda>n. 1 / 2) :: nat \<Rightarrow> real"
  let ?sc = "\<lparr>cubes = map (\<lambda>k. \<lparr>x3 = 16 / 5 - 3 * real (k mod 3), y3 = - 5,
                                   z3 = 6 / 5 * real (k div 3) - 24 / 5\<rparr>) [0 ..< 27],
               physics = \<lparr>active = True, velocities = replicate 27 \<lparr>x3 = 1, y3 = 0, z3 = 0\<rparr>,
                          offsets = replicate 27 \<lparr>x3 = 0, y3 = 0, z3 = 0\<rparr>\<rparr>,
               dragRef = None, randomCalls = 0\<rparr> :: Scene"
  have sb: "safeBoundary (viewportWidth ?fr / 2) = 3" by (simp add: safeBoundary_def)
  have p0: "cubes ?sc ! 0 = \<lparr>x3 = 16 / 5, y3 = - 5, z3 = - (24 / 5)\<rparr>" by (simp add: upt_27)
  have v0: "velocities (physics ?sc) ! 0 = \<lparr>x3 = 1, y3 = 0, z3 = 0\<rparr>" by simp
  have far: "\<forall>j\<in>set [0 ..< length (cubes ?sc)]. j \<noteq> 0 \<longrightarrow>
      \<not> distanceTo (worldOf ?fr 0 (cubes ?sc ! 0)) (worldOf ?fr j (cubes ?sc ! j)) < collisionMinDist"
    by (simp add: upt_27 distanceTo_less_collisionMinDist)
  have mouse: "\<not> distanceTo
       \<lparr>x3 = x3 (worldOf ?fr 0 (cubes ?sc ! 0)), y3 = PHYSICS_FLOOR_Y, z3 = z3 (worldOf ?fr 0 (cubes ?sc ! 0))\<rparr>
       \<lparr>x3 = x3 (mouseWorldPos ?fr), y3 = PHYSICS_FLOOR_Y, z3 = z3 (mouseWorldPos ?fr)\<rparr> < repulsionRadius"
    by (simp add: upt_27 distanceTo_less_repulsionRadius)
  have pre: "preWallVelocity ?fr ?rnd 0 ?sc (velocities (physics ?sc) ! 0) = (\<lparr>x3 = 1, y3 = 0, z3 = 0\<rparr>, 0)"
    unfolding preWallVelocity_def Let_def
    by (simp only: mouseRepulsion_far [OF mouse] cubeCollision_no_contact [OF far]) simp
  have i: "0 < length (cubes ?sc)" by simp
  have len: "length (velocities (physics ?sc)) = length (cubes ?sc)" by simp
  have out: "safeBoundary (viewportWidth ?fr / 2) < x3 (cubes ?sc ! 0)" using sb p0 by simp
  have act: "active (physics ?sc)" and nodrag: "dragRef ?sc = None" by simp_all
  from physicsLoop_beyond_wall [OF i len out act nodrag, of ?rnd] obtain sci sc' where
    sci: "forEachM (physicsStep ?fr ?rnd) [0 ..< 0] ?sc = Inr sci"
    and run: "physicsLoop ?fr ?rnd ?sc = Inr sc'"
    and px: "x3 (cubes sc' ! 0) = safeBoundary (viewportWidth ?fr / 2)
                  + x3 (fst (preWallVelocity ?fr ?rnd 0 sci (velocities (physics ?sc) ! 0))) * (- 0.8) * delta ?fr"
    and vx: "x3 (velocities (physics sc') ! 0) =
                  x3 (fst (preWallVelocity ?fr ?rnd 0 sci (velocities (physics ?sc) ! 0))) * (- 0.8) * drag"
    by blast
  have sci_eq: "sci = ?sc" using sci by simp
  have px': "x3 (cubes sc' ! 0) = 73 / 25"
    using px pre sb unfolding sci_eq by simp
  have vx': "x3 (velocities (physics sc') ! 0) = - (96 / 125)"
    using vx pre unfolding sci_eq by (simp add: drag_def)
  have proj: "projr (physicsLoop ?fr ?rnd ?sc) = sc'" using run by simp
  show ?thesis
    unfolding Let_def proj
    using sb p0 pre px' vx' by simp
qed

lemma collideWith_ignores_pointer:
  "collideWith (fr\<lparr>mouseWorldPos := m\<rparr>) rnd sc k cw = collideWith fr rnd sc k cw"
  by (intro ext) (simp add: collideWith_def Let_def)

lemma mouseRepulsion_while_dragging:
  "d \<noteq> None \<Longrightarrow> mouseRepulsion fr d cw v = v"
  by (cases d) (simp_all add: mouseRepulsion_def Let_def)

lemma preWallVelocity_ignores_pointer_while_dragging:
  assumes "dragRef sc \<noteq> None"
  shows "preWallVelocity (fr\<lparr>mouseWorldPos := m\<rparr>) rnd k sc v = preWallVelocity fr rnd k sc v"
  by (simp add: preWallVelocity_def mouseRepulsion_while_dragging [OF assms] cubeCollision_def
      collideWith_ignores_pointer Let_def)

lemma freeMotion_ignores_pointer_while_dragging:
  assumes "dragRef sc \<noteq> None"
  shows "freeMotion (fr\<lparr>mouseWorldPos := m\<rparr>) rnd k sc = freeMotion fr rnd k sc"
  by (simp add: freeMotion_def preWallVelocity_ignores_pointer_while_dragging [OF assms]
      cong: option.case_cong)

lemma dragLogic_ignores_walls_clock_random:
  "dragLogic (fr\<lparr>viewportWidth := w, elapsedTime := t\<rparr>) i sc = dragLogic fr i sc"
proof -
  have "pushOther (fr\<lparr>viewportWidth := w, elapsedTime := t\<rparr>) i = pushOther fr i"
    by (intro ext) (simp add: pushOther_def Let_def cong: option.case_cong)
  then show ?thesis
    by (simp add: dragLogic_def dragTarget_def Let_def cong: option.case_cong)
qed

text \<open>
  Claim C7. While the physics is active and piece \<open>i\<close> is the dragged piece, its step is the
  drag rule alone. The target is the pointer on the floor lifted by 0.5; the piece moves a
  fifth of the way to the target, its velocity becomes ten times its displacement to the
  target, and every other piece nearer than 1.3 to it gets its velocity increased by the
  unit vector away from the dragged piece times (1.3 - distance) * 30 * delta, the others
  keep theirs. At the end of the frame the position and the velocity of piece \<open>i\<close> are
  still exactly these: no repulsion, collision, wall check, integration, bobbing or
  friction has touched them; its step does not depend on the viewport width, the clock or
  the random numbers. While a piece is dragged the step of no other piece depends on the
  pointer: repulsion acts only when nothing is dragged.
\<close>

theorem dragged_piece_follows_pointer_only:
  assumes act: "active (physics sc)"
    and dragged: "dragRef sc = Some i"
    and i: "i < length (cubes sc)"
    and len: "length (velocities (physics sc)) = length (cubes sc)"
  shows "dragTarget fr = \<lparr>x3 = x3 (mouseWorldPos fr), y3 = PHYSICS_FLOOR_Y + 0.5, z3 = z3 (mouseWorldPos fr)\<rparr>
    \<and> (\<exists>sd. physicsStep fr rnd i sc = Inr sd
          \<and> cubes sd = (cubes sc)[i := lerp (cubes sc ! i) (dragTarget fr) 0.2]
          \<and> velocities (physics sd) ! i = multiplyScalar (subV (dragTarget fr) (cubes sc ! i)) 10
          \<and> (\<forall>k. k \<noteq> i \<longrightarrow> k < length (cubes sc) \<longrightarrow>
                velocities (physics sd) ! k =
                  (if distanceTo (cubes sd ! i) (worldOf fr k (cubes sc ! k)) < 1.3
                   then addV (velocities (physics sc) ! k)
                          (multiplyScalar (normalizeV (subV (worldOf fr k (cubes sc ! k)) (cubes sd ! i)))
                             ((1.3 - distanceTo (cubes sd ! i) (worldOf fr k (cubes sc ! k))) * 30 * delta fr))
                   else velocities (physics sc) ! k)))
    \<and> (\<exists>sc'. physicsLoop fr rnd sc = Inr sc'
          \<and> cubes sc' ! i = lerp (cubes sc ! i) (dragTarget fr) 0.2
          \<and> velocities (physics sc') ! i = multiplyScalar (subV (dragTarget fr) (cubes sc ! i)) 10)
    \<and> (\<forall>w t rnd'. physicsStep (fr\<lparr>viewportWidth := w, elapsedTime := t\<rparr>) rnd' i sc = physicsStep fr rnd i sc)
    \<and> (\<forall>k m. k \<noteq> i \<longrightarrow> physicsStep (fr\<lparr>mouseWorldPos := m\<rparr>) rnd k sc = physicsStep fr rnd k sc)"
proof (intro conjI allI impI)
  show "dragTarget fr = \<lparr>x3 = x3 (mouseWorldPos fr), y3 = PHYSICS_FLOOR_Y + 0.5, z3 = z3 (mouseWorldPos fr)\<rparr>"
    by (simp add: dragTarget_def)
next
  have step: "physicsStep fr rnd i sc = dragLogic fr i sc"
    using dragged by (simp add: physicsStep_def)
  from dragLogic_result [OF i len, of fr] step
  show "\<exists>sd. physicsStep fr rnd i sc = Inr sd
          \<and> cubes sd = (cubes sc)[i := lerp (cubes sc ! i) (dragTarget fr) 0.2]
          \<and> velocities (physics sd) ! i = multiplyScalar (subV (dragTarget fr) (cubes sc ! i)) 10
          \<and> (\<forall>k. k \<noteq> i \<longrightarrow> k < length (cubes sc) \<longrightarrow>
                velocities (physics sd) ! k =
                  (if distanceTo (cubes sd ! i) (worldOf fr k (cubes sc ! k)) < 1.3
                   then addV (velocities (physics sc) ! k)
                          (multiplyScalar (normalizeV (subV (worldOf fr k (cubes sc ! k)) (cubes sd ! i)))
                             ((1.3 - distanceTo (cubes sd ! i) (worldOf fr k (cubes sc ! k))) * 30 * delta fr))
                   else velocities (physics sc) ! k))"
    by auto
next
  have d: "dragRef sc = None \<or> dragRef sc = Some i" using dragged by simp
  from physicsLoop_piece [OF act i len d, of fr rnd] obtain sci si sc' where
    sci: "length (cubes sci) = length (cubes sc)"
      "length (velocities (physics sci)) = length (cubes sc)"
      "dragRef sci = dragRef sc"
      "cubes sci ! i = cubes sc ! i"
    and si: "physicsStep fr rnd i sci = Inr si"
    and sc': "physicsLoop fr rnd sc = Inr sc'"
      "cubes sc' ! i = cubes si ! i"
      "velocities (physics sc') ! i = velocities (physics si) ! i"
    by blast
  have step: "physicsStep fr rnd i sci = dragLogic fr i sci"
    using dragged sci(3) by (simp add: physicsStep_def)
  have i': "i < length (cubes sci)" using i sci(1) by simp
  have len': "length (velocities (physics sci)) = length (cubes sci)" using sci by simp
  from dragLogic_result [OF i' len', of fr] step si
  have "cubes si = (cubes sci)[i := lerp (cubes sci ! i) (dragTarget fr) 0.2]"
    "velocities (physics si) ! i = multiplyScalar (subV (dragTarget fr) (cubes sci ! i)) 10"
    by auto
  then have "cubes si ! i = lerp (cubes sc ! i) (dragTarget fr) 0.2"
    "velocities (physics si) ! i = multiplyScalar (subV (dragTarget fr) (cubes sc ! i)) 10"
    using i' sci(4) by simp_all
  with sc' show "\<exists>sc'. physicsLoop fr rnd sc = Inr sc'
          \<and> cubes sc' ! i = lerp (cubes sc ! i) (dragTarget fr) 0.2
          \<and> velocities (physics sc') ! i = multiplyScalar (subV (dragTarget fr) (cubes sc ! i)) 10"
    by simp
next
  fix w t rnd'
  show "physicsStep (fr\<lparr>viewportWidth := w, elapsedTime := t\<rparr>) rnd' i sc = physicsStep fr rnd i sc"
    using dragged by (simp add: physicsStep_def dragLogic_ignores_walls_clock_random)
next
  fix k m
  assume "k \<noteq> i"
  then have "dragRef sc \<noteq> Some k" using dragged by simp
  moreover have "dragRef sc \<noteq> None" using dragged by simp
  ultimately show "physicsStep (fr\<lparr>mouseWorldPos := m\<rparr>) rnd k sc = physicsStep fr rnd k sc"
    by (simp add: physicsStep_def freeMotion_ignores_pointer_while_dragging)
qed

text \<open>
  The theorem at a scene of 27 pieces in a row, piece 3 dragged towards the pointer at
  (1, 2) on the floor: after the frame the piece has moved a fifth of the way to the
  lifted target and its velocity is ten times its displacement to the target; its step
  pushes piece 2, which is nearer than 1.3; the step of piece 4 is the same for another
  pointer position.
\<close>

theorem dragged_piece_follows_pointer_only_witness:
  "(let fr = \<lparr>mouseWorldPos = \<lparr>x3 = 1, y3 = - 5, z3 = 2\<rparr>, delta = 1 / 60, elapsedTime = 2,
               viewportWidth = 6, worldOf = (\<lambda>i p. p)\<rparr>;
        rnd = (\<lambda>n. 1 / 4);
        sc = \<lparr>cubes = map (\<lambda>k. \<lparr>x3 = real k, y3 = - 5, z3 = 0\<rparr>) [0 ..< 27],
               physics = \<lparr>active = True, velocities = replicate 27 \<lparr>x3 = 2, y3 = 0, z3 = 1\<rparr>,
                          offsets = replicate 27 \<lparr>x3 = 0, y3 = 0, z3 = 0\<rparr>\<rparr>,
               dragRef = Some 3, randomCalls = 0\<rparr>
    in active (physics sc) \<and> dragRef sc = Some 3 \<and> 3 < length (cubes sc)
       \<and> length (velocities (physics sc)) = length (cubes sc)
       \<and> (\<exists>sc'. physicsLoop fr rnd sc = Inr sc'
              \<and> cubes sc' ! 3 = \<lparr>x3 = 13 / 5, y3 = - (49 / 10), z3 = 2 / 5\<rparr>
              \<and> velocities (physics sc') ! 3 = \<lparr>x3 = - 20, y3 = 5, z3 = 20\<rparr>)
       \<and> (\<exists>sd. physicsStep fr rnd 3 sc = Inr sd
              \<and> cubes sd ! 3 = \<lparr>x3 = 13 / 5, y3 = - (49 / 10), z3 = 2 / 5\<rparr>
              \<and> distanceTo (cubes sd ! 3) (worldOf fr 2 (cubes sc ! 2)) < 1.3
              \<and> velocities (physics sd) ! 2 =
                    addV (velocities (physics sc) ! 2)
                      (multiplyScalar (normalizeV (subV (worldOf fr 2 (cubes sc ! 2)) (cubes sd ! 3)))
                         ((1.3 - distanceTo (cubes sd ! 3) (worldOf fr 2 (cubes sc ! 2))) * 30 * delta fr)))
       \<and> physicsStep (fr\<lparr>mouseWorldPos := \<lparr>x3 = 9, y3 = - 5, z3 = 9\<rparr>\<rparr>) rnd 4 sc
             = physicsStep fr rnd 4 sc)"
proof -
  let ?fr = "\<lparr>mouseWorldPos = \<lparr>x3 = 1, y3 = - 5, z3 = 2\<rparr>, delta = 1 / 60, elapsedTime = 2,
               viewportWidth = 6, worldOf = (\<lambda>i p. p)\<rparr> :: Frame"
  let ?rnd = "(\<lambda>n. 1 / 4) :: nat \<Rightarrow> real"
  let ?sc = "\<lparr>cubes = map (\<lambda>k. \<lparr>x3 = real k, y3 = - 5, z3 = 0\<rparr>) [0 ..< 27],
               physics = \<lparr>active = True, velocities = replicate 27 \<lparr>x3 = 2, y3 = 0, z3 = 1\<rparr>,
                          offsets = replicate 27 \<lparr>x3 = 0, y3 = 0, z3 = 0\<rparr>\<rparr>,
               dragRef = Some 3, randomCalls = 0\<rparr> :: Scene"
  have h1: "active (physics ?sc)" by simp
  have h2: "dragRef ?sc = Some 3" by simp
  have h3: "3 < length (cubes ?sc)" by simp
  have h4: "length (velocities (physics ?sc)) = length (cubes ?sc)" by simp
  have p3: "cubes ?sc ! 3 = \<lparr>x3 = 3, y3 = - 5, z3 = 0\<rparr>" by simp
  have p2: "worldOf ?fr 2 (cubes ?sc ! 2) = \<lparr>x3 = 2, y3 = - 5, z3 = 0\<rparr>" by simp
  have tg: "dragTarget ?fr = \<lparr>x3 = 1, y3 = - (9 / 2), z3 = 2\<rparr>"
    by (simp add: dragTarget_def PHYSICS_FLOOR_Y_def)
  have lp: "lerp (cubes ?sc ! 3) (dragTarget ?fr) 0.2 = \<lparr>x3 = 13 / 5, y3 = - (49 / 10), z3 = 2 / 5\<rparr>"
    unfolding p3 tg by (simp add: lerp_def)
  have ms: "multiplyScalar (subV (dragTarget ?fr) (cubes ?sc ! 3)) 10 = \<lparr>x3 = - 20, y3 = 5, z3 = 20\<rparr>"
    unfolding p3 tg by (simp add: multiplyScalar_def subV_def)
  note main = dragged_piece_follows_pointer_only [OF h1 h2 h3 h4, of ?fr ?rnd]
  from main have "\<exists>sc'. physicsLoop ?fr ?rnd ?sc = Inr sc'
          \<and> cubes sc' ! 3 = lerp (cubes ?sc ! 3) (dragTarget ?fr) 0.2
          \<and> velocities (physics sc') ! 3 = multiplyScalar (subV (dragTarget ?fr) (cubes ?sc ! 3)) 10"
    by blast
  then have a: "\<exists>sc'. physicsLoop ?fr ?rnd ?sc = Inr sc'
              \<and> cubes sc' ! 3 = \<lparr>x3 = 13 / 5, y3 = - (49 / 10), z3 = 2 / 5\<rparr>
              \<and> velocities (physics sc') ! 3 = \<lparr>x3 = - 20, y3 = 5, z3 = 20\<rparr>"
    unfolding lp ms .
  from main obtain sd where
    sd: "physicsStep ?fr ?rnd 3 ?sc = Inr sd"
    and cs: "cubes sd = (cubes ?sc)[3 := lerp (cubes ?sc ! 3) (dragTarget ?fr) 0.2]"
    and vs: "\<forall>k. k \<noteq> 3 \<longrightarrow> k < length (cubes ?sc) \<longrightarrow>
                velocities (physics sd) ! k =
                  (if distanceTo (cubes sd ! 3) (worldOf ?fr k (cubes ?sc ! k)) < 1.3
                   then addV (velocities (physics ?sc) ! k)
                          (multiplyScalar (normalizeV (subV (worldOf ?fr k (cubes ?sc ! k)) (cubes sd ! 3)))
                             ((1.3 - distanceTo (cubes sd ! 3) (worldOf ?fr k (cubes ?sc ! k))) * 30 * delta ?fr))
                   else velocities (physics ?sc) ! k)"
    by blast
  have c3: "cubes sd ! 3 = \<lparr>x3 = 13 / 5, y3 = - (49 / 10), z3 = 2 / 5\<rparr>"
    unfolding cs lp [symmetric] using h3 by simp
  have "(distanceTo (cubes sd ! 3) (worldOf ?fr 2 (cubes ?sc ! 2)) < 13 / 10) =
     ((x3 (cubes sd ! 3) - x3 (worldOf ?fr 2 (cubes ?sc ! 2))) * (x3 (cubes sd ! 3) - x3 (worldOf ?fr 2 (cubes ?sc ! 2)))
      + (y3 (cubes sd ! 3) - y3 (worldOf ?fr 2 (cubes ?sc ! 2))) * (y3 (cubes sd ! 3) - y3 (worldOf ?fr 2 (cubes ?sc ! 2)))
      + (z3 (cubes sd ! 3) - z3 (worldOf ?fr 2 (cubes ?sc ! 2))) * (z3 (cubes sd ! 3) - z3 (worldOf ?fr 2 (cubes ?sc ! 2)))
      < 13 / 10 * (13 / 10))"
    by (rule distanceTo_less_iff) simp
  then have near: "distanceTo (cubes sd ! 3) (worldOf ?fr 2 (cubes ?sc ! 2)) < 1.3"
    unfolding c3 p2 by simp
  have "velocities (physics sd) ! 2 =
                  (if distanceTo (cubes sd ! 3) (worldOf ?fr 2 (cubes ?sc ! 2)) < 1.3
                   then addV (velocities (physics ?sc) ! 2)
                          (multiplyScalar (normalizeV (subV (worldOf ?fr 2 (cubes ?sc ! 2)) (cubes sd ! 3)))
                             ((1.3 - distanceTo (cubes sd ! 3) (worldOf ?fr 2 (cubes ?sc ! 2))) * 30 * delta ?fr))
                   else velocities (physics ?sc) ! 2)"
    using vs [rule_format, of 2] by simp
  with near have pushed: "velocities (physics sd) ! 2 =
                    addV (velocities (physics ?sc) ! 2)
                      (multiplyScalar (normalizeV (subV (worldOf ?fr 2 (cubes ?sc ! 2)) (cubes sd ! 3)))
                         ((1.3 - distanceTo (cubes sd ! 3) (worldOf ?fr 2 (cubes ?sc ! 2))) * 30 * delta ?fr))"
    by (simp only: if_True)
  from sd c3 near pushed have b: "\<exists>sd. physicsStep ?fr ?rnd 3 ?sc = Inr sd
              \<and> cubes sd ! 3 = \<lparr>x3 = 13 / 5, y3 = - (49 / 10), z3 = 2 / 5\<rparr>
              \<and> distanceTo (cubes sd ! 3) (worldOf ?fr 2 (cubes ?sc ! 2)) < 1.3
              \<and> velocities (physics sd) ! 2 =
                    addV (velocities (physics ?sc) ! 2)
                      (multiplyScalar (normalizeV (subV (worldOf ?fr 2 (cubes ?sc ! 2)) (cubes sd ! 3)))
                         ((1.3 - distanceTo (cubes sd ! 3) (worldOf ?fr 2 (cubes ?sc ! 2))) * 30 * delta ?fr))"
    by blast
  have c: "physicsStep (?fr\<lparr>mouseWorldPos := \<lparr>x3 = 9, y3 = - 5, z3 = 9\<rparr>\<rparr>) ?rnd 4 ?sc
             = physicsStep ?fr ?rnd 4 ?sc"
    by (rule main [THEN conjunct2, THEN conjunct2, THEN conjunct2, THEN conjunct2, rule_format]) simp
  from h1 h2 h3 h4 a b c show ?thesis unfolding Let_def by blast
qed

section \<open>Properties of the wall collision\<close>

lemma wallCollision_in_strip:
  "- safeBoundary w \<le> x3 (fst (wallCollision w (p, v)))
   \<and> x3 (fst (wallCollision w (p, v))) \<le> safeBoundary w"
  by (auto simp add: safeBoundary_def wallCollision_def)

text \<open>
  Claim C10. For every viewport width the half-width of the wall check is the larger of
  2 and half the viewport width less 1, so it is at least 2. The wall check leaves the x
  position of a piece between minus this half-width and this half-width, a strip at
  least 4 wide and symmetric about 0; in the step of a piece that is not dragged, this
  is the x position to which the step then adds velocity.x times the frame time.
\<close>

theorem safeBoundary_at_least_two:
  "safeBoundary (viewportWidth fr / 2) = max 2 (viewportWidth fr / 2 - 1)
   \<and> 2 \<le> safeBoundary (viewportWidth fr / 2)
   \<and> - safeBoundary (viewportWidth fr / 2) \<le> x3 (fst (wallCollision (viewportWidth fr / 2) (p, v)))
   \<and> x3 (fst (wallCollision (viewportWidth fr / 2) (p, v))) \<le> safeBoundary (viewportWidth fr / 2)
   \<and> 4 \<le> safeBoundary (viewportWidth fr / 2) - (- safeBoundary (viewportWidth fr / 2))
   \<and> (i < length (cubes sc) \<and> i < length (velocities (physics sc)) \<longrightarrow>
        (\<exists>sc'. freeMotion fr rnd i sc = Inr sc'
           \<and> \<bar>x3 (cubes sc' ! i) - x3 (velocities (physics sc') ! i) / drag * delta fr\<bar>
               \<le> safeBoundary (viewportWidth fr / 2)))"
proof -
  have a: "safeBoundary (viewportWidth fr / 2) = max 2 (viewportWidth fr / 2 - 1)"
    by (simp add: safeBoundary_def)
  have b: "2 \<le> safeBoundary (viewportWidth fr / 2)"
    by (simp add: safeBoundary_def)
  note c = wallCollision_in_strip [of "viewportWidth fr / 2" p v]
  have d: "\<exists>sc'. freeMotion fr rnd i sc = Inr sc'
           \<and> \<bar>x3 (cubes sc' ! i) - x3 (velocities (physics sc') ! i) / drag * delta fr\<bar>
               \<le> safeBoundary (viewportWidth fr / 2)"
    if h: "i < length (cubes sc) \<and> i < length (velocities (physics sc))"
  proof -
    let ?W = "wallCollision (viewportWidth fr / 2)
                     (cubes sc ! i, fst (preWallVelocity fr rnd i sc (velocities (physics sc) ! i)))"
    from h freeMotion_at [of i sc fr rnd] obtain sc' where
      r: "freeMotion fr rnd i sc = Inr sc'"
      and px: "x3 (cubes sc' ! i) = x3 (fst ?W) + x3 (snd ?W) * delta fr"
      and vx: "velocities (physics sc') ! i = multiplyScalar (snd ?W) drag"
      by blast
    have "x3 (velocities (physics sc') ! i) / drag = x3 (snd ?W)"
      using vx by (simp add: multiplyScalar_def drag_def)
    then have "x3 (cubes sc' ! i) - x3 (velocities (physics sc') ! i) / drag * delta fr = x3 (fst ?W)"
      using px by simp
    moreover have "\<bar>x3 (fst ?W)\<bar> \<le> safeBoundary (viewportWidth fr / 2)"
      using wallCollision_in_strip [of "viewportWidth fr / 2" "cubes sc ! i"
          "fst (preWallVelocity fr rnd i sc (velocities (physics sc) ! i))"]
      by (simp add: abs_le_iff)
    ultimately show ?thesis using r by auto
  qed
  show ?thesis using a b c d by simp
qed

text \<open>The theorem at a viewport 1 wide: the half-width is 2, for piece 7 of 27.\<close>

theorem safeBoundary_at_least_two_witness:
  "(let fr = \<lparr>mouseWorldPos = \<lparr>x3 = 1, y3 = - 5, z3 = 1\<rparr>, delta = 1 / 60, elapsedTime = 2,
               viewportWidth = 1, worldOf = (\<lambda>i p. p)\<rparr>;
        rnd = (\<lambda>n. 1 / 4);
        sc = \<lparr>cubes = map (\<lambda>k. \<lparr>x3 = 4, y3 = - 5, z3 = real k\<rparr>) [0 ..< 27],
               physics = \<lparr>active = True, velocities = replicate 27 \<lparr>x3 = 2, y3 = 0, z3 = 1\<rparr>,
                          offsets = replicate 27 \<lparr>x3 = 0, y3 = 0, z3 = 0\<rparr>\<rparr>,
               dragRef = None, randomCalls = 0\<rparr>
    in 7 < length (cubes sc) \<and> 7 < length (velocities (physics sc))
       \<and> safeBoundary (viewportWidth fr / 2) = 2
       \<and> (\<exists>sc'. freeMotion fr rnd 7 sc = Inr sc'
           \<and> \<bar>x3 (cubes sc' ! 7) - x3 (velocities (physics sc') ! 7) / drag * delta fr\<bar> \<le> 2))"
proof -
  let ?fr = "\<lparr>mouseWorldPos = \<lparr>x3 = 1, y3 = - 5, z3 = 1\<rparr>, delta = 1 / 60, elapsedTime = 2,
               viewportWidth = 1, worldOf = (\<lambda>i p. p)\<rparr> :: Frame"
  let ?rnd = "(\<lambda>n. 1 / 4) :: nat \<Rightarrow> real"
  let ?sc = "\<lparr>cubes = map (\<lambda>k. \<lparr>x3 = 4, y3 = - 5, z3 = real k\<rparr>) [0 ..< 27],
               physics = \<lparr>active = True, velocities = replicate 27 \<lparr>x3 = 2, y3 = 0, z3 = 1\<rparr>,
                          offsets = replicate 27 \<lparr>x3 = 0, y3 = 0, z3 = 0\<rparr>\<rparr>,
               dragRef = None, randomCalls = 0\<rparr> :: Scene"
  have h: "7 < length (cubes ?sc) \<and> 7 < length (velocities (physics ?sc))" by simp
  have sb: "safeBoundary (viewportWidth ?fr / 2) = 2" by (simp add: safeBoundary_def)
  from safeBoundary_at_least_two [of ?fr _ _ 7 ?sc ?rnd] h
  have "\<exists>sc'. freeMotion ?fr ?rnd 7 ?sc = Inr sc'
           \<and> \<bar>x3 (cubes sc' ! 7) - x3 (velocities (physics sc') ! 7) / drag * delta ?fr\<bar>
               \<le> safeBoundary (viewportWidth ?fr / 2)"
    by blast
  with h sb show ?thesis unfolding Let_def by simp
qed

section \<open>Properties of the explosion\<close>

lemmas grid_eval = allCubes_def slices_def gridLoops_def upto_m1_1 gridBody_def Let_def

lemma cubesRefs_slices:
  "cubesRefs (slices rnd) =
     map (\<lambda>(x, y, z). \<lparr>position = \<lparr>x3 = real_of_int x * gap, y3 = 0, z3 = real_of_int z * gap\<rparr>,
                        userDataId = cubeId x y z\<rparr>)
       [(- 1, 1, - 1), (- 1, 1, 0), (- 1, 1, 1), (0, 1, - 1), (0, 1, 0), (0, 1, 1),
        (1, 1, - 1), (1, 1, 0), (1, 1, 1),
        (- 1, 0, - 1), (- 1, 0, 0), (- 1, 0, 1), (0, 0, - 1), (0, 0, 0), (0, 0, 1),
        (1, 0, - 1), (1, 0, 0), (1, 0, 1),
        (- 1, - 1, - 1), (- 1, - 1, 0), (- 1, - 1, 1), (0, - 1, - 1), (0, - 1, 0), (0, - 1, 1),
        (1, - 1, - 1), (1, - 1, 0), (1, - 1, 1)]"
  by (simp add: cubesRefs_def mountCube_def grid_eval)

lemma find_id_None:
  "(find (\<lambda>c. id' c = i) xs = None) = (i \<notin> set (map id' xs))"
  by (auto simp add: find_None_iff)

lemma parentYOf_mem:
  "parentYOf g i =
     (if i \<in> set (map id' (top' g)) then 1.05
      else if i \<in> set (map id' (bot' g)) then - 1.05 else 0)"
proof (cases "find (\<lambda>c. id' c = i) (top' g)")
  case (Some c)
  then have "i \<in> set (map id' (top' g))"
    using find_id_None [of i "top' g"] by auto
  with Some show ?thesis by (simp add: parentYOf_def)
next
  case None
  then have nt: "i \<notin> set (map id' (top' g))"
    using find_id_None [of i "top' g"] by auto
  show ?thesis
  proof (cases "find (\<lambda>c. id' c = i) (bot' g)")
    case (Some c)
    then have "i \<in> set (map id' (bot' g))"
      using find_id_None [of i "bot' g"] by auto
    with Some None nt show ?thesis by (simp add: parentYOf_def)
  next
    case nb: None
    then have "i \<notin> set (map id' (bot' g))"
      using find_id_None [of i "bot' g"] by auto
    with nb None nt show ?thesis by (simp add: parentYOf_def)
  qed
qed

lemma top_ids:
  "map id' (top' (slices rnd)) =
     [''-1-1--1'', ''-1-1-0'', ''-1-1-1'', ''0-1--1'', ''0-1-0'', ''0-1-1'', ''1-1--1'', ''1-1-0'', ''1-1-1'']"
  by (simp add: grid_eval cubeId_def numToString_grid)

lemma bot_ids:
  "map id' (bot' (slices rnd)) =
     [''-1--1--1'', ''-1--1-0'', ''-1--1-1'', ''0--1--1'', ''0--1-0'', ''0--1-1'', ''1--1--1'',
      ''1--1-0'', ''1--1-1'']"
  by (simp add: grid_eval cubeId_def numToString_grid)

lemma parentYOf_slices:
  "map (\<lambda>m. parentYOf (slices rnd) (userDataId m)) (cubesRefs (slices rnd))
     = [1.05, 1.05, 1.05, 1.05, 1.05, 1.05, 1.05, 1.05, 1.05, 0, 0, 0, 0, 0, 0, 0, 0, 0,
        - 1.05, - 1.05, - 1.05, - 1.05, - 1.05, - 1.05, - 1.05, - 1.05, - 1.05]"
  by (simp add: cubesRefs_slices parentYOf_mem top_ids bot_ids cubeId_def numToString_grid)

lemma parentYOf_abs: "\<bar>parentYOf g i\<bar> \<le> 1.05"
  by (simp add: parentYOf_mem)

text \<open>
  Claim C9. When the vector of a piece's x, its slice's height and its z has length zero,
  the explosion direction is the upward vector (0, 1, 0); the direction used always has
  length 1. In the grid exactly one piece has such a vector: the piece of coordinates
  (0, 0, 0), on the axis of the middle slice (piece 13 in mounting order), and the end
  value of its position tween is straight above it at the explosion distance.
\<close>

theorem explosion_direction_falls_back_to_up:
  "(lengthV \<lparr>x3 = x3 p, y3 = parentY, z3 = z3 p\<rparr> = 0 \<longrightarrow>
       explodeDirection p parentY = \<lparr>x3 = 0, y3 = 1, z3 = 0\<rparr>)
   \<and> lengthV (explodeDirection p parentY) = 1
   \<and> filter (\<lambda>m. lengthV \<lparr>x3 = x3 (position m), y3 = parentYOf (slices rnd) (userDataId m),
                              z3 = z3 (position m)\<rparr> = 0) (cubesRefs (slices rnd))
       = [\<lparr>position = \<lparr>x3 = 0, y3 = 0, z3 = 0\<rparr>, userDataId = cubeId 0 0 0\<rparr>]
   \<and> cubesRefs (slices rnd) ! 13 = \<lparr>position = \<lparr>x3 = 0, y3 = 0, z3 = 0\<rparr>, userDataId = cubeId 0 0 0\<rparr>
   \<and> positionTo (explodeCube (slices rnd) screenWidth rnd' n (cubesRefs (slices rnd) ! 13))
       = \<lparr>x3 = 0, y3 = safeSpread screenWidth + rnd' n * 2, z3 = 0\<rparr>"
proof -
  have a: "lengthV \<lparr>x3 = x3 p, y3 = parentY, z3 = z3 p\<rparr> = 0 \<longrightarrow>
       explodeDirection p parentY = \<lparr>x3 = 0, y3 = 1, z3 = 0\<rparr>"
    by (simp add: explodeDirection_def normalizeV_zero Let_def lengthV_eq_0)
  have b: "lengthV (explodeDirection p parentY) = 1"
    by (rule explodeDirection_unit)
  have c: "filter (\<lambda>m. lengthV \<lparr>x3 = x3 (position m), y3 = parentYOf (slices rnd) (userDataId m),
                              z3 = z3 (position m)\<rparr> = 0) (cubesRefs (slices rnd))
       = [\<lparr>position = \<lparr>x3 = 0, y3 = 0, z3 = 0\<rparr>, userDataId = cubeId 0 0 0\<rparr>]"
    by (simp add: lengthV_eq_0 cubesRefs_slices parentYOf_mem top_ids bot_ids cubeId_def
        numToString_grid gap_def)
  have d: "cubesRefs (slices rnd) ! 13 = \<lparr>position = \<lparr>x3 = 0, y3 = 0, z3 = 0\<rparr>, userDataId = cubeId 0 0 0\<rparr>"
    by (simp add: cubesRefs_slices)
  have py: "parentYOf (slices rnd) (cubeId 0 0 0) = 0"
    by (simp add: parentYOf_mem top_ids bot_ids cubeId_def numToString_grid)
  have e: "positionTo (explodeCube (slices rnd) screenWidth rnd' n (cubesRefs (slices rnd) ! 13))
       = \<lparr>x3 = 0, y3 = safeSpread screenWidth + rnd' n * 2, z3 = 0\<rparr>"
    unfolding d
    by (simp add: explodeCube_def py explodeTarget_def explodeDirection_def normalizeV_zero
        lengthV_eq_0 Let_def)
  from a b c d e show ?thesis by blast
qed

text \<open>The theorem at the piece in the centre, with the height 0 of the middle slice.\<close>

theorem explosion_direction_falls_back_to_up_witness:
  "lengthV \<lparr>x3 = x3 \<lparr>x3 = 0, y3 = 0, z3 = 0\<rparr>, y3 = 0, z3 = z3 \<lparr>x3 = 0, y3 = 0, z3 = 0\<rparr>\<rparr> = 0
   \<and> explodeDirection \<lparr>x3 = 0, y3 = 0, z3 = 0\<rparr> 0 = \<lparr>x3 = 0, y3 = 1, z3 = 0\<rparr>"
proof -
  have h: "lengthV \<lparr>x3 = x3 \<lparr>x3 = 0, y3 = 0, z3 = 0\<rparr>, y3 = 0, z3 = z3 \<lparr>x3 = 0, y3 = 0, z3 = 0\<rparr>\<rparr> = 0"
    by (simp add: lengthV_def)
  with explosion_direction_falls_back_to_up [of "\<lparr>x3 = 0, y3 = 0, z3 = 0\<rparr>" 0] show ?thesis by blast
qed

lemma explodedPosition_at_1: "explodedPosition tw mesh 1 = positionTo tw"
  by (simp add: explodedPosition_def tweenTo_def power2Out_def tl2Duration_def explosionDuration_def
      Let_def)

lemma explodeEach_length: "length (explodeEach g w r n ms) = length ms"
  by (induction ms arbitrary: n) simp_all

lemma explodeEach_nth:
  "i < length ms \<Longrightarrow> explodeEach g w r n ms ! i = explodeCube g w r (n + 4 * i) (ms ! i)"
proof (induction ms arbitrary: n i)
  case Nil
  then show ?case by simp
next
  case (Cons m ms)
  show ?case
  proof (cases i)
    case 0
    then show ?thesis by simp
  next
    case (Suc k)
    with Cons.prems have "k < length ms" by simp
    from Cons.IH [OF this, of "n + 4"] Suc show ?thesis by (simp add: add.assoc)
  qed
qed

lemma lengthV_unit_squares:
  assumes "lengthV u = 1"
  shows "x3 u * x3 u + y3 u * y3 u + z3 u * z3 u = 1"
proof -
  have "0 \<le> x3 u * x3 u + y3 u * y3 u + z3 u * z3 u"
    by (simp add: add_nonneg_nonneg)
  then have "(sqrt (x3 u * x3 u + y3 u * y3 u + z3 u * z3 u))\<^sup>2 = x3 u * x3 u + y3 u * y3 u + z3 u * z3 u"
    by simp
  with assms show ?thesis by (simp add: lengthV_def)
qed

lemma explodeTarget_distance:
  "0.7 * e - \<bar>parentY\<bar> \<le> distanceTo (explodeTarget p parentY e) p"
proof -
  define ux where "ux = x3 (explodeDirection p parentY)"
  define uy where "uy = y3 (explodeDirection p parentY)"
  define uz where "uz = z3 (explodeDirection p parentY)"
  define a where "a = ux * (e * 0.7)"
  define b where "b = uy * e"
  define c where "c = uz * e"
  have unit: "ux * ux + uy * uy + uz * uz = 1"
    unfolding ux_def uy_def uz_def
    by (rule lengthV_unit_squares) (rule explodeDirection_unit)
  have dist: "distanceTo (explodeTarget p parentY e) p = sqrt (a * a + (b - parentY) * (b - parentY) + c * c)"
    by (simp add: distanceTo_def explodeTarget_def Let_def a_def b_def c_def ux_def uy_def uz_def)
  have "a * a + b * b + c * c
      = (49 / 100) * (e * e) * (ux * ux + uy * uy + uz * uz) + (51 / 100) * ((e * uy) * (e * uy)) + (51 / 100) * ((e * uz) * (e * uz))"
    by (simp add: a_def b_def c_def field_simps)
  also have "\<dots> = (49 / 100) * (e * e) + (51 / 100) * ((e * uy) * (e * uy)) + (51 / 100) * ((e * uz) * (e * uz))"
    by (simp only: unit mult_1_right)
  finally have sq: "a * a + b * b + c * c
      = (49 / 100) * (e * e) + (51 / 100) * ((e * uy) * (e * uy)) + (51 / 100) * ((e * uz) * (e * uz))" .
  have "(7 / 10 * e)\<^sup>2 = (49 / 100) * (e * e)" by (simp add: power2_eq_square)
  also have "\<dots> \<le> a * a + b * b + c * c"
  proof -
    have "0 \<le> (e * uy) * (e * uy)" "0 \<le> (e * uz) * (e * uz)" by simp_all
    then show ?thesis unfolding sq by linarith
  qed
  finally have "(7 / 10 * e)\<^sup>2 \<le> a * a + b * b + c * c" .
  then have s2: "7 / 10 * e \<le> sqrt (a * a + b * b + c * c)"
    by (rule real_le_rsqrt)
  define A where "A = sqrt (a * a + c * c)"
  have A2: "A * A = a * a + c * c"
    unfolding A_def by (simp add: add_nonneg_nonneg)
  have "sqrt ((A + 0)\<^sup>2 + ((b - parentY) + parentY)\<^sup>2)
          \<le> sqrt (A\<^sup>2 + (b - parentY)\<^sup>2) + sqrt (0\<^sup>2 + parentY\<^sup>2)"
    by (rule real_sqrt_sum_squares_triangle_ineq)
  then have tri: "sqrt (A * A + b * b)
          \<le> sqrt (A * A + (b - parentY) * (b - parentY)) + \<bar>parentY\<bar>"
    by (simp add: power2_eq_square)
  have e1: "A * A + b * b = a * a + b * b + c * c" using A2 by simp
  have e2: "A * A + (b - parentY) * (b - parentY) = a * a + (b - parentY) * (b - parentY) + c * c"
    using A2 by simp
  have s3: "sqrt (a * a + b * b + c * c)
          \<le> sqrt (a * a + (b - parentY) * (b - parentY) + c * c) + \<bar>parentY\<bar>"
    using tri unfolding e1 e2 .
  from s2 s3 dist show ?thesis by simp
qed

lemma cubesRefs_length: "length (cubesRefs (slices rnd)) = 27"
  by (simp add: cubesRefs_slices)

lemma explodedPositions_nth:
  assumes "i < 27"
  shows "explodedPositions w rnd' n (slices rnd) 1 ! i
           = explodeTarget (position (cubesRefs (slices rnd) ! i))
               (parentYOf (slices rnd) (userDataId (cubesRefs (slices rnd) ! i)))
               (safeSpread w + rnd' (n + 4 * i) * 2)"
  using assms
  by (simp add: explodedPositions_def explodeEach_length explodeEach_nth cubesRefs_length
      explodedPosition_at_1 explodeCube_def Let_def)

lemma mid_parentY:
  assumes "9 \<le> i" and "i < 18"
  shows "parentYOf (slices rnd) (userDataId (cubesRefs (slices rnd) ! i)) = 0"
proof -
  have "i < length (cubesRefs (slices rnd))" using assms by (simp add: cubesRefs_length)
  then have "parentYOf (slices rnd) (userDataId (cubesRefs (slices rnd) ! i))
      = map (\<lambda>m. parentYOf (slices rnd) (userDataId m)) (cubesRefs (slices rnd)) ! i"
    by simp
  also have "\<dots> = [1.05, 1.05, 1.05, 1.05, 1.05, 1.05, 1.05, 1.05, 1.05, 0, 0, 0, 0, 0, 0, 0, 0, 0,
        - 1.05, - 1.05, - 1.05, - 1.05, - 1.05, - 1.05, - 1.05, - 1.05, - 1.05] ! i"
    by (simp only: parentYOf_slices)
  also have "\<dots> = 0"
  proof -
    consider "i = 9" | "i = 10" | "i = 11" | "i = 12" | "i = 13" | "i = 14" | "i = 15" | "i = 16" | "i = 17"
      using assms by linarith
    then show ?thesis by cases simp_all
  qed
  finally show ?thesis .
qed

lemma spread_bound_arith:
  fixes D P R S :: real
  assumes "7 / 10 * (S + R * 2) - P \<le> D" and "0 \<le> R" and "P \<le> Q"
  shows "7 / 10 * S - Q \<le> D"
proof -
  have "7 / 10 * S \<le> 7 / 10 * (S + R * 2)" using assms(2) by simp
  with assms(1,3) show ?thesis by linarith
qed

text \<open>
  Claim C4, as amended. With random numbers that are not negative and \<open>tl2\<close> at progress
  1, each of the 27 pieces is at the end value of its position tween: its position before
  the explosion moved by the direction times the distance, the x part scaled by 0.7 and
  the y part lowered by the height of its slice, where the distance is the base spread
  plus twice its random number. Its distance from its position before the explosion is
  at least 0.7 times the base spread less 1.05, and at least 0.7 times the base spread
  for the nine pieces of the middle slice.
\<close>

theorem explosion_displacement_lower_bound:
  assumes nonneg: "\<forall>k. 0 \<le> rnd' k" and i: "i < 27"
  shows "explodedPositions w rnd' n (slices rnd) 1 ! i
           = explodeTarget (position (cubesRefs (slices rnd) ! i))
               (parentYOf (slices rnd) (userDataId (cubesRefs (slices rnd) ! i)))
               (safeSpread w + rnd' (n + 4 * i) * 2)
       \<and> 0.7 * safeSpread w - 1.05
           \<le> distanceTo (explodedPositions w rnd' n (slices rnd) 1 ! i) (position (cubesRefs (slices rnd) ! i))
       \<and> (9 \<le> i \<and> i < 18 \<longrightarrow>
            0.7 * safeSpread w
              \<le> distanceTo (explodedPositions w rnd' n (slices rnd) 1 ! i) (position (cubesRefs (slices rnd) ! i)))"
proof -
  let ?m = "cubesRefs (slices rnd) ! i"
  let ?py = "parentYOf (slices rnd) (userDataId ?m)"
  let ?e = "safeSpread w + rnd' (n + 4 * i) * 2"
  let ?d = "distanceTo (explodedPositions w rnd' n (slices rnd) 1 ! i) (position ?m)"
  note pos = explodedPositions_nth [OF i, of w rnd' n rnd]
  have r: "0 \<le> rnd' (n + 4 * i)" using nonneg by simp
  have "0.7 * ?e - \<bar>?py\<bar> \<le> ?d"
    unfolding pos by (rule explodeTarget_distance)
  then have d: "7 / 10 * ?e - \<bar>?py\<bar> \<le> ?d" by simp
  have "\<bar>?py\<bar> \<le> 1.05" by (rule parentYOf_abs)
  then have py: "\<bar>?py\<bar> \<le> 21 / 20" by simp
  from spread_bound_arith [OF d r py] have all: "0.7 * safeSpread w - 1.05 \<le> ?d" by simp
  have mid: "0.7 * safeSpread w \<le> ?d" if "9 \<le> i \<and> i < 18"
  proof -
    have "\<bar>?py\<bar> \<le> 0" using that by (simp add: mid_parentY)
    from spread_bound_arith [OF d r this] show ?thesis by simp
  qed
  from pos all mid show ?thesis by blast
qed

text \<open>The theorem at piece 16, of the middle slice, in a viewport 12 wide.\<close>

theorem explosion_displacement_lower_bound_witness:
  "(\<forall>k. 0 \<le> (\<lambda>n. 1 / 2 :: real) k) \<and> (16 :: nat) < 27 \<and> (9 :: nat) \<le> 16 \<and> (16 :: nat) < 18
   \<and> 0.7 * safeSpread 12 - 1.05
        \<le> distanceTo (explodedPositions 12 (\<lambda>n. 1 / 2) 0 (slices (\<lambda>n. 1 / 3)) 1 ! 16)
            (position (cubesRefs (slices (\<lambda>n. 1 / 3)) ! 16))
   \<and> 0.7 * safeSpread 12
        \<le> distanceTo (explodedPositions 12 (\<lambda>n. 1 / 2) 0 (slices (\<lambda>n. 1 / 3)) 1 ! 16)
            (position (cubesRefs (slices (\<lambda>n. 1 / 3)) ! 16))"
proof -
  have h1: "\<forall>k. 0 \<le> (\<lambda>n. 1 / 2 :: real) k" by simp
  have h2: "(16 :: nat) < 27" by simp
  have h3: "(9 :: nat) \<le> 16 \<and> (16 :: nat) < 18" by simp
  from explosion_displacement_lower_bound [OF h1 h2, of 12 0 "\<lambda>n. 1 / 3"] h1 h2 h3
  show ?thesis by blast
qed

lemma lengthV_x_axis: "lengthV \<lparr>x3 = a, y3 = 0, z3 = 0\<rparr> = \<bar>a\<bar>"
  by (simp add: lengthV_def)

lemma distanceTo_x_axis:
  "y3 v = y3 w \<Longrightarrow> z3 v = z3 w \<Longrightarrow> distanceTo v w = \<bar>x3 v - x3 w\<bar>"
  by (simp add: distanceTo_def)

text \<open>
  Claim C4 as the specification states it fails. In a viewport 12 wide the base spread is
  3. With every random number 0, the piece of coordinates (1, 0, 0) starts at x = 1.05 and
  ends at x = 3.15: it has moved 2.1, less than the base spread.
\<close>

theorem base_spread_not_a_lower_bound_counterexample:
  "(let g = slices (\<lambda>n. 0);
        ps = explodedPositions 12 (\<lambda>n. 0) 0 g 1
    in cubesRefs g ! 16 = \<lparr>position = \<lparr>x3 = 21 / 20, y3 = 0, z3 = 0\<rparr>, userDataId = ''1-0-0''\<rparr>
       \<and> safeSpread 12 = 3
       \<and> ps ! 16 = \<lparr>x3 = 63 / 20, y3 = 0, z3 = 0\<rparr>
       \<and> distanceTo (ps ! 16) (position (cubesRefs g ! 16)) = 21 / 10
       \<and> distanceTo (ps ! 16) (position (cubesRefs g ! 16)) < safeSpread 12)"
proof -
  let ?g = "slices (\<lambda>n. 0)"
  have m: "cubesRefs ?g ! 16 = \<lparr>position = \<lparr>x3 = 21 / 20, y3 = 0, z3 = 0\<rparr>, userDataId = ''1-0-0''\<rparr>"
    by (simp add: cubesRefs_slices gap_def cubeId_def numToString_grid)
  have s: "safeSpread 12 = 3" by (simp add: safeSpread_def)
  have py: "parentYOf ?g ''1-0-0'' = 0"
    by (simp add: parentYOf_mem top_ids bot_ids)
  have dir: "explodeDirection \<lparr>x3 = 21 / 20, y3 = 0, z3 = 0\<rparr> 0 = \<lparr>x3 = 1, y3 = 0, z3 = 0\<rparr>"
    by (simp add: explodeDirection_def normalizeV_def divideScalar_def multiplyScalar_def
        lengthV_x_axis Let_def)
  have p: "explodedPositions 12 (\<lambda>n. 0) 0 ?g 1 ! 16 = \<lparr>x3 = 63 / 20, y3 = 0, z3 = 0\<rparr>"
    by (simp add: explodedPositions_nth m py s explodeTarget_def dir Let_def)
  have d: "distanceTo (explodedPositions 12 (\<lambda>n. 0) 0 ?g 1 ! 16) (position (cubesRefs ?g ! 16)) = 21 / 10"
    unfolding p m by (simp add: distanceTo_x_axis)
  show ?thesis unfolding Let_def using m s p d by simp
qed

section \<open>Properties of the icon texture generator\<close>













end
